theory Spec2Isabelle
  imports Complex_Main
begin

section \<open>Errors\<close>

text \<open>
  The Python exceptions the modelled functions can raise. A function that can raise
  returns \<open>py_error + 'a\<close>, with \<open>Inl\<close> for the exception.
\<close>

datatype py_error =
    ZeroDivisionError
  | TypeError
  | RuntimeError
  | IndexError
  | UnboundLocalError
  | AttributeError
  | SystemExit

section \<open>Vocabulary padding\<close>

text \<open>
  Both \<open>get_train_val_test_data\<close> (pretrain_gpt2.py) and \<open>prepare_tokenizer\<close>
  (generate_samples.py) run the loop
  \<^verbatim>\<open>
    after = before
    while (after % multiple) != 0:
        after += 1
  \<close>
  Python's \<open>%\<close> on integers takes the sign of the divisor, as \<open>mod\<close> on \<open>int\<close> does,
  and raises ZeroDivisionError for a zero divisor. \<open>pad_vocab_loop\<close> is the loop for a
  nonzero multiple; the callers below raise for a zero one before entering it.
\<close>

function pad_vocab_loop :: "int \<Rightarrow> int \<Rightarrow> int" where
  "pad_vocab_loop after multiple =
     (if multiple = 0 \<or> after mod multiple = 0 then after
      else pad_vocab_loop (after + 1) multiple)"
  by pat_completeness auto
termination
proof (relation "measure (\<lambda>(a, m). nat ((- a) mod \<bar>m\<bar>))")
  show "wf (measure (\<lambda>(a, m). nat ((- a) mod \<bar>m\<bar>)))" by simp
next
  fix after multiple :: int
  assume "\<not> (multiple = 0 \<or> after mod multiple = 0)"
  then have m: "multiple \<noteq> 0" and a: "after mod multiple \<noteq> 0" by auto
  have pos: "0 < \<bar>multiple\<bar>" using m by simp
  have na: "(- after) mod \<bar>multiple\<bar> \<noteq> 0"
  proof
    assume "(- after) mod \<bar>multiple\<bar> = 0"
    then have "\<bar>multiple\<bar> dvd - after" by (rule mod_0_imp_dvd)
    then have "multiple dvd after" by simp
    then have "after mod multiple = 0" by (rule dvd_imp_mod_0)
    with a show False by simp
  qed
  have "(- (after + 1)) mod \<bar>multiple\<bar> = ((- after) mod \<bar>multiple\<bar> - 1) mod \<bar>multiple\<bar>"
    by (simp add: mod_diff_left_eq)
  also have "\<dots> = (- after) mod \<bar>multiple\<bar> - 1"
  proof (rule mod_pos_pos_trivial)
    show "0 \<le> (- after) mod \<bar>multiple\<bar> - 1"
      using na pos pos_mod_sign[of "\<bar>multiple\<bar>" "- after"] by linarith
    show "(- after) mod \<bar>multiple\<bar> - 1 < \<bar>multiple\<bar>"
      using pos pos_mod_bound[of "\<bar>multiple\<bar>" "- after"] by linarith
  qed
  finally have lt: "(- (after + 1)) mod \<bar>multiple\<bar> < (- after) mod \<bar>multiple\<bar>" by linarith
  have "0 \<le> (- (after + 1)) mod \<bar>multiple\<bar>" using m by simp
  with lt show "((after + 1, multiple), (after, multiple)) \<in> measure (\<lambda>(a, m). nat ((- a) mod \<bar>m\<bar>))"
    by simp
qed

declare pad_vocab_loop.simps [simp del]

text \<open>
  \<open>get_train_val_test_data\<close> (pretrain_gpt2.py, lines 669-677), the padded size that
  rank 0 puts into \<open>token_counts[0]\<close> and broadcasts:
  \<^verbatim>\<open>
    multiple = args.make_vocab_size_divisible_by * mpu.get_model_parallel_world_size()
  \<close>
\<close>

definition get_train_val_test_data_vocab :: "int \<Rightarrow> int \<Rightarrow> int \<Rightarrow> py_error + int" where
  "get_train_val_test_data_vocab num_tokens make_vocab_size_divisible_by model_parallel_world_size =
     (let before = num_tokens;
          multiple = make_vocab_size_divisible_by * model_parallel_world_size
      in if multiple = 0 then Inl ZeroDivisionError
         else Inr (pad_vocab_loop before multiple))"

text \<open>
  \<open>prepare_tokenizer\<close> (generate_samples.py, lines 381-399), the size stored in
  \<open>args.vocab_size\<close>:
  \<^verbatim>\<open>
    multiple = args.make_vocab_size_divisible_by
  \<close>
  The model-parallel world size does not enter.
\<close>

definition prepare_tokenizer_vocab :: "int \<Rightarrow> int \<Rightarrow> py_error + int" where
  "prepare_tokenizer_vocab num_tokens make_vocab_size_divisible_by =
     (let before = num_tokens;
          multiple = make_vocab_size_divisible_by
      in if multiple = 0 then Inl ZeroDivisionError
         else Inr (pad_vocab_loop before multiple))"

section \<open>CogView: padding a dataset row to the maximal length\<close>

text \<open>
  \<open>get_dataset_by_type\<close> (CogView/data_utils/datasets.py). The arguments it reads:
\<close>

record cogview_args =
  finetune :: bool
  max_position_embeddings_finetune :: int
  max_position_embeddings :: int

definition max_len :: "cogview_args \<Rightarrow> int" where
  "max_len args =
     (if finetune args \<and> max_position_embeddings_finetune args > max_position_embeddings args
      then max_position_embeddings_finetune args
      else max_position_embeddings args)"

text \<open>
  Python's slice \<open>ret[:n]\<close>: a negative bound counts from the end. Python's \<open>[x] * n\<close>
  is the empty list for a negative \<open>n\<close>.
\<close>

definition py_slice_to :: "'a list \<Rightarrow> int \<Rightarrow> 'a list" where
  "py_slice_to xs n = (if 0 \<le> n then take (nat n) xs else take (nat (int (length xs) + n)) xs)"

definition py_repeat :: "'a \<Rightarrow> int \<Rightarrow> 'a list" where
  "py_repeat x n = replicate (nat n) x"

text \<open>
  \<open>pad_to_len\<close>, with \<open>ml\<close> and the tokenizer's \<open>[PAD]\<close> id (the tokenizer is not
  part of the sources, so the id is a parameter) made explicit.
\<close>

definition pad_to_len :: "int \<Rightarrow> int \<Rightarrow> int list \<Rightarrow> int list \<times> int" where
  "pad_to_len ml pad ret =
     (if int (length ret) < ml
      then (ret @ py_repeat pad (ml - int (length ret)), int (length ret))
      else (py_slice_to ret ml, ml))"

record sample =
  sample_text :: "int list"
  sample_loss_mask :: "int list"

text \<open>
  A row as the LMDB store holds it: an array of token ids for 'TokenizedDataset', a pair
  of a text and a code array for 'TextCodeDataset'. \<open>flatten\<close> of an array is the
  concatenation of its rows.
\<close>

datatype 'txt row = TokenRow "int list list" | TextCodeRow 'txt "int list list"

definition mk_sample :: "int list \<times> int \<Rightarrow> sample" where
  "mk_sample p =
     (case p of (ret, attention_mask_sep) \<Rightarrow>
        \<lparr>sample_text = ret,
         sample_loss_mask =
           py_repeat 1 attention_mask_sep @ py_repeat 0 (int (length ret) - attention_mask_sep)\<rparr>)"

text \<open>
  The two \<open>process_fn\<close> closures. \<open>TextCodeTemplate\<close> comes from a module outside the
  sources and is a parameter, known on texts of type \<open>'txt\<close> only. The rows modelled are
  those in the format of their dataset. A pair given to the 'TokenizedDataset' closure
  has no \<open>flatten\<close>: AttributeError. A token array given to the 'TextCodeDataset' closure
  lies outside the model: the code would index it, \<open>row[0]\<close> and \<open>row[1].flatten()\<close>, and
  hand a row of tokens to \<open>TextCodeTemplate\<close> as the text, whose answer there is not
  known; the definition answers AttributeError for it too, and the properties below are
  stated for rows in the format of their dataset.
\<close>

definition process_fn_TokenizedDataset :: "int \<Rightarrow> int \<Rightarrow> 'txt row \<Rightarrow> py_error + sample" where
  "process_fn_TokenizedDataset ml pad r =
     (case r of
        TokenRow a \<Rightarrow> Inr (mk_sample (pad_to_len ml pad (concat a)))
      | TextCodeRow _ _ \<Rightarrow> Inl AttributeError)"

definition process_fn_TextCodeDataset ::
  "('txt \<Rightarrow> int list \<Rightarrow> int list) \<Rightarrow> int \<Rightarrow> int \<Rightarrow> 'txt row \<Rightarrow> py_error + sample" where
  "process_fn_TextCodeDataset TextCodeTemplate ml pad r =
     (case r of
        TextCodeRow txt code \<Rightarrow> Inr (mk_sample (pad_to_len ml pad (TextCodeTemplate txt (concat code))))
      | TokenRow _ \<Rightarrow> Inl AttributeError)"

text \<open>
  \<open>get_dataset_by_type\<close> hands \<open>process_fn\<close> to the dataset class, which applies it to
  every row it reads; the model returns the function. For any other dataset type the
  name \<open>process_fn\<close> was never bound.
\<close>

definition get_dataset_by_type ::
  "('txt \<Rightarrow> int list \<Rightarrow> int list) \<Rightarrow> int \<Rightarrow> string \<Rightarrow> cogview_args \<Rightarrow>
   py_error + ('txt row \<Rightarrow> py_error + sample)" where
  "get_dataset_by_type TextCodeTemplate pad dataset_type args =
     (let ml = max_len args
      in if dataset_type = ''TokenizedDataset'' then Inr (process_fn_TokenizedDataset ml pad)
         else if dataset_type = ''TextCodeDataset''
         then Inr (process_fn_TextCodeDataset TextCodeTemplate ml pad)
         else Inl UnboundLocalError)"

section \<open>Tensors\<close>

text \<open>
  A tensor is a nested list of its entries, outermost dimension first. Floating-point
  entries are idealised as reals; the masks built here hold only 0 and 1.
\<close>

type_synonym tensor2 = "real list list"
type_synonym tensor3 = "real list list list"
type_synonym tensor4 = "real list list list list"

definition torch_ones2 :: "nat \<Rightarrow> nat \<Rightarrow> tensor2" where
  "torch_ones2 r c = replicate r (replicate c 1)"

definition torch_ones3 :: "nat \<Rightarrow> nat \<Rightarrow> nat \<Rightarrow> tensor3" where
  "torch_ones3 b r c = replicate b (torch_ones2 r c)"

text \<open>
  \<open>torch.triu(t, k)\<close> keeps the entries with \<open>j - i \<ge> k\<close> in each matrix of the last two
  dimensions and zeroes the others; \<open>torch.tril(t, k)\<close> keeps those with \<open>j - i \<le> k\<close>.
\<close>

definition triu :: "int \<Rightarrow> tensor3 \<Rightarrow> tensor3" where
  "triu k t =
     map (\<lambda>m. map (\<lambda>(i, row). map (\<lambda>(j, x). if k \<le> int j - int i then x else 0)
                                    (enumerate 0 row))
                (enumerate 0 m)) t"

definition tril :: "int \<Rightarrow> tensor3 \<Rightarrow> tensor3" where
  "tril k t =
     map (\<lambda>m. map (\<lambda>(i, row). map (\<lambda>(j, x). if int j - int i \<le> k then x else 0)
                                    (enumerate 0 row))
                (enumerate 0 m)) t"

definition unsqueeze1 :: "tensor3 \<Rightarrow> tensor4" where
  "unsqueeze1 t = map (\<lambda>m. [m]) t"

section \<open>Attention mask, loss mask and position ids\<close>

text \<open>
  \<open>get_masks_and_position_ids\<close>, the same text in pretrain_gpt2.py (lines 201-263) and
  generate_samples.py (lines 88-150). \<open>data\<close> is a batch of token rows;
  \<open>data.size()\<close> gives the number of rows and the length of a row.
\<close>

definition seq_length_of :: "int list list \<Rightarrow> nat" where
  "seq_length_of data = (case data of [] \<Rightarrow> 0 | r # _ \<Rightarrow> length r)"

text \<open>
  The attention mask before \<open>unsqueeze(1)\<close> (lines 213-224). With \<open>transformer_xl\<close>,
  \<open>mem_length = None\<close> makes \<open>seq_length + mem_length\<close> a TypeError, and \<open>torch.ones\<close>
  raises RuntimeError for a negative dimension.
\<close>

definition attention_mask_lower_triangular ::
  "nat \<Rightarrow> nat \<Rightarrow> bool \<Rightarrow> tensor3 option \<Rightarrow> bool \<Rightarrow> int option \<Rightarrow> py_error + tensor3" where
  "attention_mask_lower_triangular batch_size seq_length reset_attention_mask attention_mask
       transformer_xl mem_length =
     (if transformer_xl then
        (case mem_length of
           None \<Rightarrow> Inl TypeError
         | Some ml \<Rightarrow>
             (case attention_mask of
                None \<Rightarrow>
                  if int seq_length + ml < 0 then Inl RuntimeError
                  else Inr (tril ml (triu (1 - int seq_length + ml)
                              (torch_ones3 1 seq_length (nat (int seq_length + ml)))))
              | Some am \<Rightarrow> Inr (tril ml (triu (1 - int seq_length + ml) am))))
      else
        (let att_mask_batch = (if reset_attention_mask then batch_size else 1)
         in case attention_mask of
              None \<Rightarrow> Inr (tril 0 (torch_ones3 att_mask_batch seq_length seq_length))
            | Some am \<Rightarrow> Inr (tril 0 am)))"

text \<open>
  \<open>loss_mask[data == eod_token] = 0.0\<close>: a boolean mask must have the shape of the
  tensor it indexes (IndexError otherwise).
\<close>

definition same_shape :: "'a list list \<Rightarrow> 'b list list \<Rightarrow> bool" where
  "same_shape xs ys = (map length xs = map length ys)"

definition zero_at_eod :: "int \<Rightarrow> int list list \<Rightarrow> tensor2 \<Rightarrow> tensor2" where
  "zero_at_eod eod_token data loss_mask =
     map (\<lambda>(drow, lrow). map (\<lambda>(t, x). if t = eod_token then 0 else x) (zip drow lrow))
         (zip data loss_mask)"

text \<open>
  \<open>attention_mask[b, 0, (i+1):, :(i+1)] = 0\<close> on the matrix \<open>attention_mask[b, 0]\<close>, and
  \<open>position_ids[b, (i+1):] -= d\<close> on the row \<open>position_ids[b]\<close>. The index \<open>i\<close> is a
  position, so \<open>i + 1\<close> is positive.
\<close>

definition zero_block :: "nat \<Rightarrow> tensor2 \<Rightarrow> tensor2" where
  "zero_block k m =
     map (\<lambda>(r, row). if k \<le> r then map (\<lambda>(c, x). if c < k then 0 else x) (enumerate 0 row)
                       else row)
         (enumerate 0 m)"

definition subtract_from :: "nat \<Rightarrow> int \<Rightarrow> int list \<Rightarrow> int list" where
  "subtract_from k d ps = map (\<lambda>(j, p). if k \<le> j then p - d else p) (enumerate 0 ps)"

text \<open>
  The loop over the EOD indices of row \<open>b\<close> (lines 252-261). Indexing the attention
  mask at a row \<open>b\<close> it does not have is an IndexError.
\<close>

fun eod_index_loop ::
  "bool \<Rightarrow> bool \<Rightarrow> nat \<Rightarrow> int list \<Rightarrow> int \<Rightarrow> tensor4 \<times> int list list \<Rightarrow>
   py_error + (tensor4 \<times> int list list)" where
  "eod_index_loop reset_position_ids reset_attention_mask b [] prev_index st = Inr st"
| "eod_index_loop reset_position_ids reset_attention_mask b (i # eod_index) prev_index
       (attention_mask, position_ids) =
     (if reset_attention_mask \<and> length attention_mask \<le> b then Inl IndexError
      else
        let attention_mask' =
              (if reset_attention_mask
               then attention_mask[b := (attention_mask ! b)
                                          [0 := zero_block (nat (i + 1)) (attention_mask ! b ! 0)]]
               else attention_mask);
            position_ids' =
              (if reset_position_ids
               then position_ids[b := subtract_from (nat (i + 1)) (i + 1 - prev_index)
                                        (position_ids ! b)]
               else position_ids);
            prev_index' = (if reset_position_ids then i + 1 else prev_index)
        in eod_index_loop reset_position_ids reset_attention_mask b eod_index prev_index'
             (attention_mask', position_ids'))"

text \<open>
  The loop over the batch (lines 243-261). \<open>eod_index\<close> holds the position ids of row
  \<open>b\<close> at the places where the token is \<open>eod_token\<close>.
\<close>

fun batch_loop ::
  "bool \<Rightarrow> bool \<Rightarrow> int \<Rightarrow> int list list \<Rightarrow> nat list \<Rightarrow> tensor4 \<times> int list list \<Rightarrow>
   py_error + (tensor4 \<times> int list list)" where
  "batch_loop reset_position_ids reset_attention_mask eod_token data [] st = Inr st"
| "batch_loop reset_position_ids reset_attention_mask eod_token data (b # bs)
       (attention_mask, position_ids) =
     (let eod_index = map snd (filter (\<lambda>(t, p). t = eod_token)
                                 (zip (data ! b) (position_ids ! b)))
      in case eod_index_loop reset_position_ids reset_attention_mask b eod_index 0
                (attention_mask, position_ids) of
           Inl e \<Rightarrow> Inl e
         | Inr st' \<Rightarrow> batch_loop reset_position_ids reset_attention_mask eod_token data bs st')"

definition get_masks_and_position_ids ::
  "int list list \<Rightarrow> int \<Rightarrow> bool \<Rightarrow> bool \<Rightarrow> tensor2 option \<Rightarrow> tensor3 option \<Rightarrow> bool \<Rightarrow>
   int option \<Rightarrow> py_error + (tensor4 \<times> tensor2 \<times> int list list)" where
  "get_masks_and_position_ids data eod_token reset_position_ids reset_attention_mask
       loss_mask attention_mask transformer_xl mem_length =
     (let batch_size = length data;
          seq_length = seq_length_of data
      in case attention_mask_lower_triangular batch_size seq_length reset_attention_mask
                attention_mask transformer_xl mem_length of
           Inl e \<Rightarrow> Inl e
         | Inr am3 \<Rightarrow>
             (let attention_mask' = unsqueeze1 am3;
                  loss_mask' = (case loss_mask of
                                  None \<Rightarrow> map (\<lambda>row. replicate (length row) 1) data
                                | Some lm \<Rightarrow> lm);
                  position_ids = replicate batch_size (map int [0..<seq_length])
              in if transformer_xl then Inr (attention_mask', loss_mask', position_ids)
                 else if \<not> same_shape loss_mask' data then Inl IndexError
                 else
                   (let loss_mask'' = zero_at_eod eod_token data loss_mask'
                    in if reset_position_ids \<or> reset_attention_mask then
                         (case batch_loop reset_position_ids reset_attention_mask eod_token data
                                 [0..<batch_size] (attention_mask', position_ids) of
                            Inl e \<Rightarrow> Inl e
                          | Inr (attention_mask'', position_ids') \<Rightarrow>
                              Inr (attention_mask'', loss_mask'', position_ids'))
                       else Inr (attention_mask', loss_mask'', position_ids))))"

section \<open>The training program (pretrain_gpt2.py)\<close>

subsection \<open>Scalars\<close>

text \<open>
  A scalar loss is a floating-point number, idealised as a real; \<open>None\<close> stands for a
  result that is not finite (inf or nan). Tensor division by zero raises nothing in
  torch: it yields inf or nan.
\<close>

type_synonym scalar = "real option"

definition tensor_div :: "real \<Rightarrow> real \<Rightarrow> scalar" where
  "tensor_div a b = (if b = 0 then None else Some (a / b))"

definition scalar_add :: "scalar \<Rightarrow> scalar \<Rightarrow> scalar" where
  "scalar_add a b = (case (a, b) of (Some x, Some y) \<Rightarrow> Some (x + y) | _ \<Rightarrow> None)"

definition scalar_div_int :: "scalar \<Rightarrow> int \<Rightarrow> scalar" where
  "scalar_div_int a n = (case a of None \<Rightarrow> None | Some x \<Rightarrow> tensor_div x (real_of_int n))"

definition scalar_sum :: "scalar list \<Rightarrow> scalar" where
  "scalar_sum xs = foldr scalar_add xs (Some 0)"

text \<open>
  The elementwise product of two flat tensors: equal sizes, or one of size one that is
  broadcast; RuntimeError otherwise.
\<close>

definition tensor_mul :: "real list \<Rightarrow> real list \<Rightarrow> py_error + real list" where
  "tensor_mul xs ys =
     (if length xs = length ys then Inr (map (\<lambda>(x, y). x * y) (zip xs ys))
      else (case xs of
              [x] \<Rightarrow> Inr (map (\<lambda>y. x * y) ys)
            | _ \<Rightarrow> (case ys of
                      [y] \<Rightarrow> Inr (map (\<lambda>x. x * y) xs)
                    | _ \<Rightarrow> Inl RuntimeError)))"

subsection \<open>Arguments\<close>

text \<open>
  The fields of \<open>args\<close> the modelled functions read. \<open>args.iteration\<close>, which \<open>train\<close>
  increments, is passed explicitly. A value that may be \<open>None\<close> is an option;
  \<open>truthy_str\<close> is Python's test of a string or \<open>None\<close> in a condition.
\<close>

record args =
  deepspeed :: bool
  deepspeed_activation_checkpointing :: bool
  fp16 :: bool
  world_size :: int
  clip_grad :: real
  train_iters :: int
  eval_iters :: int
  log_interval :: int
  save :: "string option"
  save_interval :: "int option"
  eval_interval :: "int option"
  exit_interval :: "int option"
  do_train :: bool
  do_valid :: bool
  do_test :: bool
  xl_dataset :: bool
  mem_length :: int
  eod_token :: int
  reset_position_ids :: bool
  reset_attention_mask :: bool
  transformer_xl :: bool
  out_seq_length :: int

text \<open>
  \<open>args.x and args.iteration % args.x == 0\<close>: the interval is tested for truth before
  the remainder is taken.
\<close>

definition interval_hits :: "int option \<Rightarrow> int \<Rightarrow> bool" where
  "interval_hits v iteration = (case v of None \<Rightarrow> False | Some n \<Rightarrow> n \<noteq> 0 \<and> iteration mod n = 0)"

definition truthy_str :: "string option \<Rightarrow> bool" where
  "truthy_str v = (case v of None \<Rightarrow> False | Some s \<Rightarrow> s \<noteq> [])"

text \<open>The module constant \<open>USE_TORCH_DDP = True\<close> (line 19).\<close>

definition USE_TORCH_DDP :: bool where
  "USE_TORCH_DDP = True"

subsection \<open>The framework\<close>

text \<open>
  torch, mpu, deepspeed and apex are outside the sources. Every call into them that
  changes something (the data iterator, the gradients, the parameters, the files) is
  an event: it is appended to the trace and changes an abstract world through
  \<open>effect\<close>. What the program reads back from the framework is a function of the
  world. Framework calls are taken to return; timers and console output are left out.
\<close>

datatype iterator = TrainData | ValData | TestData

datatype 'm event =
    FetchBatch iterator
  | ModelCall "'m list" "'m list"
  | ZeroGrad
  | LossBackward scalar
  | OptimizerBackward scalar
  | EngineBackward scalar
  | AllReduceLoss
  | AllReduceParams
  | UpdateMasterGrads
  | ClipGradNorm real
  | ClipMasterGrads real
  | OptimizerStep
  | ModelStep
  | LrSchedulerStep
  | ReportIterationMetrics int scalar
  | ReportMemory int
  | ReportEvaluateMetrics scalar
  | SaveCheckpoint int
  | ModelTrain
  | ModelEval
  | CheckpointingReset
  | Barrier
  | SampleToken int
  | PrintTokens "int list"

text \<open>
  What \<open>mpu.broadcast_data\<close> hands out for one batch: int64 tensors under the keys
  'text' and 'loss_mask', and with \<open>args.xl_dataset\<close> also 'target' and
  'attention_mask'.
\<close>

record data_b =
  b_text :: "int list list"
  b_target :: "int list list"
  b_loss_mask :: "int list list"
  b_attention_mask :: "int list list list"

text \<open>
  \<open>model_fn\<close> is the call \<open>model(tokens, position_ids, attention_mask, *mems)\<close>; its
  result, unpacked as \<open>logits, *mems\<close>, is the pair of the first output and the list of
  the outputs after it. \<open>peer_losses\<close> are the values the other processes contribute to
  the all-reduce of the loss. \<open>sample_token\<close> is the draw of the next token from the
  logits in generate_samples.py: the last position's logits divided by the temperature,
  filtered by \<open>top_k_logits\<close>, turned into probabilities and sampled by
  \<open>torch.multinomial\<close>.
\<close>

record ('w, 'lg, 'm) framework =
  next_data :: "'w \<Rightarrow> iterator \<Rightarrow> data_b"
  model_fn :: "'w \<Rightarrow> int list list \<Rightarrow> int list list \<Rightarrow> tensor4 \<Rightarrow> 'm list \<Rightarrow> 'lg \<times> 'm list"
  vocab_parallel_cross_entropy :: "'lg \<Rightarrow> int list list \<Rightarrow> real list list"
  peer_losses :: "'w \<Rightarrow> scalar list"
  overflow :: "'w \<Rightarrow> bool"
  is_gradient_accumulation_boundary :: "'w \<Rightarrow> bool"
  sample_token :: "'w \<Rightarrow> 'lg \<Rightarrow> int"
  model_parallel_rank :: "'w \<Rightarrow> int"
  effect :: "'m event \<Rightarrow> 'w \<Rightarrow> 'w"

record ('w, 'm) state =
  world :: 'w
  trace :: "'m event list"

definition emit :: "('w, 'lg, 'm) framework \<Rightarrow> 'm event \<Rightarrow> ('w, 'm) state \<Rightarrow> ('w, 'm) state" where
  "emit fw e st = \<lparr>world = effect fw e (world st), trace = trace st @ [e]\<rparr>"

text \<open>\<open>torch.distributed.all_reduce\<close> with the default sum over all processes.\<close>

definition all_reduce :: "('w, 'lg, 'm) framework \<Rightarrow> 'w \<Rightarrow> scalar \<Rightarrow> scalar" where
  "all_reduce fw w x = scalar_sum (x # peer_losses fw w)"

subsection \<open>get_batch and forward_step\<close>

text \<open>
  \<open>get_batch\<close> (lines 266-319). \<open>x[:, 1:]\<close> drops the first column, \<open>x[:, :-1]\<close> the
  last. The conversion of the attention mask to half precision is left out.
\<close>

definition to_float :: "int list list \<Rightarrow> tensor2" where
  "to_float t = map (map real_of_int) t"

definition get_batch ::
  "('w, 'lg, 'm) framework \<Rightarrow> args \<Rightarrow> iterator \<Rightarrow> ('w, 'm) state \<Rightarrow>
   (py_error + (int list list \<times> int list list \<times> tensor2 \<times> tensor4 \<times> int list list))
   \<times> ('w, 'm) state" where
  "get_batch fw a data_iterator st =
     (let data_b = next_data fw (world st) data_iterator;
          st1 = emit fw (FetchBatch data_iterator) st;
          (tokens, labels, attention_mask, loss_mask) =
            (if xl_dataset a
             then (b_text data_b, b_target data_b,
                   Some (map to_float (b_attention_mask data_b)),
                   to_float (b_loss_mask data_b))
             else (map butlast (b_text data_b), map tl (b_text data_b),
                   None,
                   map tl (to_float (b_loss_mask data_b))))
      in case get_masks_and_position_ids tokens (eod_token a) (reset_position_ids a)
                (reset_attention_mask a) (Some loss_mask) attention_mask (xl_dataset a)
                (Some (mem_length a)) of
           Inl e \<Rightarrow> (Inl e, st1)
         | Inr (attention_mask', loss_mask', position_ids) \<Rightarrow>
             (Inr (tokens, labels, loss_mask', attention_mask', position_ids), st1))"

text \<open>
  \<open>forward_step\<close> (lines 325-347):
  \<^verbatim>\<open>
    logits, *mems = model(tokens, position_ids, attention_mask, *mems)
    losses = mpu.vocab_parallel_cross_entropy(logits.contiguous().float(), labels)
    loss_mask = loss_mask.view(-1)
    loss = torch.sum(losses.view(-1) * loss_mask) / loss_mask.sum()
    return loss, mems
  \<close>
\<close>

definition forward_step ::
  "('w, 'lg, 'm) framework \<Rightarrow> args \<Rightarrow> iterator \<Rightarrow> 'm list \<Rightarrow> ('w, 'm) state \<Rightarrow>
   (py_error + (scalar \<times> 'm list)) \<times> ('w, 'm) state" where
  "forward_step fw a data_iterator mems st =
     (case get_batch fw a data_iterator st of
        (Inl e, st1) \<Rightarrow> (Inl e, st1)
      | (Inr (tokens, labels, loss_mask, attention_mask, position_ids), st1) \<Rightarrow>
          (case model_fn fw (world st1) tokens position_ids attention_mask mems of
             (logits, mems') \<Rightarrow>
               (let st2 = emit fw (ModelCall mems mems') st1;
                    losses = vocab_parallel_cross_entropy fw logits labels;
                    loss_mask' = concat loss_mask
                in case tensor_mul (concat losses) loss_mask' of
                     Inl e \<Rightarrow> (Inl e, st2)
                   | Inr weighted \<Rightarrow>
                       (Inr (tensor_div (sum_list weighted) (sum_list loss_mask'), mems'),
                        st2))))"

subsection \<open>backward_step\<close>

text \<open>
  \<open>backward_step\<close> (lines 350-395). \<open>reduced_losses\<close> is a view of \<open>lm_loss\<close>; the
  all-reduce runs after the backward pass, and nothing reads \<open>lm_loss\<close> after it.
\<close>

definition backward_step ::
  "('w, 'lg, 'm) framework \<Rightarrow> args \<Rightarrow> scalar \<Rightarrow> ('w, 'm) state \<Rightarrow> scalar \<times> ('w, 'm) state" where
  "backward_step fw a lm_loss st =
     (let loss = lm_loss;
          st1 = (if deepspeed a then emit fw (EngineBackward loss) st
                 else (let s = emit fw ZeroGrad st
                       in if fp16 a then emit fw (OptimizerBackward loss) s
                          else emit fw (LossBackward loss) s));
          reduced_losses = lm_loss;
          (reduced_losses', st2) =
            (if deepspeed a then (reduced_losses, st1)
             else (let r = all_reduce fw (world st1) reduced_losses;
                       s = emit fw AllReduceLoss st1;
                       r' = scalar_div_int r (world_size a)
                   in (r', if \<not> USE_TORCH_DDP then emit fw AllReduceParams s else s)));
          lm_loss_reduced = reduced_losses';
          st3 = (if \<not> deepspeed a then
                   (let s = (if fp16 a then emit fw UpdateMasterGrads st2 else st2)
                    in if clip_grad a > 0 then
                         (if \<not> fp16 a then emit fw (ClipGradNorm (clip_grad a)) s
                          else emit fw (ClipMasterGrads (clip_grad a)) s)
                       else s)
                 else st2)
      in (lm_loss_reduced, st3))"

subsection \<open>train_step\<close>

text \<open>
  \<open>train_step\<close> (lines 412-452). The \<open>while True\<close> loop runs until \<open>complete\<close> is set;
  with deepspeed that is at a gradient accumulation boundary, which the framework
  decides, so the loop is a partial function: \<open>None\<close> is a run that never leaves it.
  The result is \<open>lm_loss_reduced, skipped_iter, mems\<close>.
\<close>

partial_function (option) train_step ::
  "('w, 'lg, 'm) framework \<Rightarrow> args \<Rightarrow> iterator \<Rightarrow> 'm list \<Rightarrow> ('w, 'm) state \<Rightarrow>
   ((py_error + (scalar \<times> int \<times> 'm list)) \<times> ('w, 'm) state) option" where
  "train_step fw a data_iterator mems st =
     (case forward_step fw a data_iterator mems st of
        (Inl e, st1) \<Rightarrow> Some (Inl e, st1)
      | (Inr (lm_loss, mems'), st1) \<Rightarrow>
          (case backward_step fw a lm_loss st1 of
             (lm_loss_reduced, st2) \<Rightarrow>
               if deepspeed a then
                 (if is_gradient_accumulation_boundary fw (world st2) then
                    (let st3 = emit fw ModelStep st2
                     in if \<not> (fp16 a \<and> overflow fw (world st3))
                        then Some (Inr (lm_loss_reduced, 0, mems'), emit fw LrSchedulerStep st3)
                        else Some (Inr (lm_loss_reduced, 1, mems'), st3))
                  else train_step fw a data_iterator mems' (emit fw ModelStep st2))
               else
                 (let st3 = emit fw OptimizerStep st2
                  in if \<not> (fp16 a \<and> overflow fw (world st3))
                     then Some (Inr (lm_loss_reduced, 0, mems'), emit fw LrSchedulerStep st3)
                     else Some (Inr (lm_loss_reduced, 1, mems'), st3))))"

declare train_step.simps [code]

subsection \<open>evaluate\<close>

text \<open>
  \<open>evaluate\<close> (lines 553-588). The model is a DDP wrapper exactly when deepspeed is
  off (\<open>get_model\<close>, lines 91-97). \<open>iteration % args.log_interval\<close> is evaluated only
  when \<open>verbose\<close> holds. The loop:
\<close>

definition model_is_DDP :: "args \<Rightarrow> bool" where
  "model_is_DDP a = (\<not> deepspeed a)"

function evaluate_loop ::
  "('w, 'lg, 'm) framework \<Rightarrow> args \<Rightarrow> iterator \<Rightarrow> bool \<Rightarrow> int \<Rightarrow> scalar \<Rightarrow> 'm list \<Rightarrow>
   ('w, 'm) state \<Rightarrow> (py_error + scalar) \<times> ('w, 'm) state" where
  "evaluate_loop fw a data_iterator verbose iteration total_lm_loss mems st =
     (if iteration < eval_iters a then
        (let iteration' = iteration + 1
         in if verbose \<and> log_interval a = 0 then (Inl ZeroDivisionError, st)
            else
              (case forward_step fw a data_iterator mems st of
                 (Inl e, st1) \<Rightarrow> (Inl e, st1)
               | (Inr (lm_loss, mems'), st1) \<Rightarrow>
                   (let st2 = (if deepspeed a \<and> deepspeed_activation_checkpointing a
                               then emit fw CheckpointingReset st1 else st1);
                        (lm_loss', st3) =
                          (if model_is_DDP a
                           then (scalar_div_int (all_reduce fw (world st2) lm_loss) (world_size a),
                                 emit fw AllReduceLoss st2)
                           else (lm_loss, st2))
                    in evaluate_loop fw a data_iterator verbose iteration'
                         (scalar_add total_lm_loss lm_loss') mems' st3)))
      else (Inr total_lm_loss, st))"
  by pat_completeness auto
termination
  by (relation "measure (\<lambda>(fw, a, data_iterator, verbose, iteration, total_lm_loss, mems, st).
                   nat (eval_iters a - iteration))") auto

declare evaluate_loop.simps [simp del]

text \<open>
  \<open>total_lm_loss /= args.eval_iters\<close> divides a Python number: ZeroDivisionError for
  \<open>eval_iters = 0\<close>.
\<close>

definition evaluate ::
  "('w, 'lg, 'm) framework \<Rightarrow> args \<Rightarrow> iterator \<Rightarrow> bool \<Rightarrow> ('w, 'm) state \<Rightarrow>
   (py_error + scalar) \<times> ('w, 'm) state" where
  "evaluate fw a data_iterator verbose st =
     (let st0 = emit fw ModelEval st
      in case evaluate_loop fw a data_iterator verbose 0 (Some 0) [] st0 of
           (Inl e, st1) \<Rightarrow> (Inl e, st1)
         | (Inr total_lm_loss, st1) \<Rightarrow>
             (let st2 = emit fw ModelTrain st1
              in if eval_iters a = 0 then (Inl ZeroDivisionError, st2)
                 else (Inr (scalar_div_int total_lm_loss (eval_iters a)), st2)))"

definition evaluate_and_print_results ::
  "('w, 'lg, 'm) framework \<Rightarrow> args \<Rightarrow> iterator \<Rightarrow> bool \<Rightarrow> ('w, 'm) state \<Rightarrow>
   (py_error + scalar) \<times> ('w, 'm) state" where
  "evaluate_and_print_results fw a data_iterator verbose st =
     (case evaluate fw a data_iterator verbose st of
        (Inl e, st1) \<Rightarrow> (Inl e, st1)
      | (Inr lm_loss, st1) \<Rightarrow> (Inr lm_loss, emit fw (ReportEvaluateMetrics lm_loss) st1))"

subsection \<open>train\<close>

text \<open>
  The body of the \<open>while args.iteration < args.train_iters\<close> loop of \<open>train\<close>
  (lines 502-548). \<open>iteration\<close> is \<open>args.iteration\<close> on entry; the body increments it.
  The loop state is \<open>total_lm_loss, skipped_iters, report_memory_flag, mems\<close>.
  \<open>args.iteration % args.log_interval\<close> is a ZeroDivisionError for a zero interval;
  the other three intervals are tested for truth first. \<open>exit()\<close> raises SystemExit.
\<close>

definition train_body ::
  "('w, 'lg, 'm) framework \<Rightarrow> args \<Rightarrow> int \<Rightarrow> scalar \<Rightarrow> int \<Rightarrow> bool \<Rightarrow> 'm list \<Rightarrow>
   ('w, 'm) state \<Rightarrow>
   ((py_error + (scalar \<times> int \<times> bool \<times> 'm list)) \<times> ('w, 'm) state) option" where
  "train_body fw a iteration total_lm_loss skipped_iters report_memory_flag mems st =
     (case train_step fw a TrainData mems st of
        None \<Rightarrow> None
      | Some (Inl e, st1) \<Rightarrow> Some (Inl e, st1)
      | Some (Inr (lm_loss, skipped_iter, mems'), st1) \<Rightarrow>
          (let skipped_iters' = skipped_iters + skipped_iter;
               iteration' = iteration + 1;
               total1 = scalar_add total_lm_loss lm_loss
           in if log_interval a = 0 then Some (Inl ZeroDivisionError, st1)
              else
                (let (total2, flag2, st2) =
                       (if iteration' mod log_interval a = 0 then
                          (let avg_lm_loss = scalar_div_int total1 (log_interval a);
                               s = emit fw (ReportIterationMetrics iteration' avg_lm_loss) st1
                           in (Some 0, False,
                               if report_memory_flag then emit fw (ReportMemory iteration') s
                               else s))
                        else (total1, report_memory_flag, st1));
                     st3 = (if truthy_str (save a) \<and> interval_hits (save_interval a) iteration'
                            then emit fw (SaveCheckpoint iteration') st2 else st2)
                 in case (if interval_hits (eval_interval a) iteration' \<and> do_valid a
                          then evaluate_and_print_results fw a ValData False st3
                          else (Inr None, st3)) of
                      (Inl e, st4) \<Rightarrow> Some (Inl e, st4)
                    | (Inr _, st4) \<Rightarrow>
                        if interval_hits (exit_interval a) iteration'
                        then Some (Inl SystemExit, emit fw Barrier st4)
                        else Some (Inr (total2, skipped_iters', flag2, mems'), st4))))"

function train_loop ::
  "('w, 'lg, 'm) framework \<Rightarrow> args \<Rightarrow> int \<Rightarrow> scalar \<Rightarrow> int \<Rightarrow> bool \<Rightarrow> 'm list \<Rightarrow>
   ('w, 'm) state \<Rightarrow> ((py_error + (int \<times> int)) \<times> ('w, 'm) state) option" where
  "train_loop fw a iteration total_lm_loss skipped_iters report_memory_flag mems st =
     (if iteration < train_iters a then
        (case train_body fw a iteration total_lm_loss skipped_iters report_memory_flag mems st of
           None \<Rightarrow> None
         | Some (Inl e, st') \<Rightarrow> Some (Inl e, st')
         | Some (Inr (total', skipped', flag', mems'), st') \<Rightarrow>
             train_loop fw a (iteration + 1) total' skipped' flag' mems' st')
      else Some (Inr (iteration, skipped_iters), st))"
  by pat_completeness auto
termination
  by (relation "measure (\<lambda>(fw, a, iteration, total_lm_loss, skipped_iters, report_memory_flag,
                           mems, st). nat (train_iters a - iteration))") auto

declare train_loop.simps [simp del]

text \<open>
  \<open>train\<close> (lines 484-550) returns \<open>args.iteration, skipped_iters\<close>; \<open>args_iteration\<close> is
  the value of \<open>args.iteration\<close> at the call.
\<close>

definition train ::
  "('w, 'lg, 'm) framework \<Rightarrow> args \<Rightarrow> int \<Rightarrow> ('w, 'm) state \<Rightarrow>
   ((py_error + (int \<times> int)) \<times> ('w, 'm) state) option" where
  "train fw a args_iteration st =
     train_loop fw a args_iteration (Some 0) 0 True [] (emit fw ModelTrain st)"

subsection \<open>main\<close>

text \<open>
  The part of \<open>main\<close> after the data iterators are built (lines 760-790).
  \<open>args.save\<close> was replaced by a path below itself when it was set (line 713), which
  keeps its truth value.
\<close>

definition main_training ::
  "('w, 'lg, 'm) framework \<Rightarrow> args \<Rightarrow> int \<Rightarrow> ('w, 'm) state \<Rightarrow>
   ((py_error + unit) \<times> ('w, 'm) state) option" where
  "main_training fw a args_iteration st =
     (case (if train_iters a > 0 then
              (if do_train a then train fw a args_iteration st else Some (Inr (0, 0), st))
            else Some (Inr (0, 0), st)) of
        None \<Rightarrow> None
      | Some (Inl e, st1) \<Rightarrow> Some (Inl e, st1)
      | Some (Inr (iteration, skipped), st1) \<Rightarrow>
          (case (if train_iters a > 0 \<and> do_valid a
                 then evaluate_and_print_results fw a ValData False st1
                 else (Inr None, st1)) of
             (Inl e, st2) \<Rightarrow> Some (Inl e, st2)
           | (Inr _, st2) \<Rightarrow>
               (let st3 = (if truthy_str (save a) \<and> iteration \<noteq> 0
                           then emit fw (SaveCheckpoint iteration) st2 else st2)
                in if do_test a then
                     (case evaluate_and_print_results fw a TestData True st3 of
                        (Inl e, st4) \<Rightarrow> Some (Inl e, st4)
                      | (Inr _, st4) \<Rightarrow> Some (Inr (), st4))
                   else Some (Inr (), st3))))"

section \<open>Sampling (generate_samples.py)\<close>

text \<open>
  Python's slice \<open>xs[lo:hi]\<close>: a negative bound counts from the end, and both bounds
  are clamped to the list.
\<close>

definition py_bound :: "nat \<Rightarrow> int \<Rightarrow> nat" where
  "py_bound n i = (if i < 0 then nat (int n + i) else min n (nat i))"

definition py_slice :: "'a list \<Rightarrow> int \<Rightarrow> int \<Rightarrow> 'a list" where
  "py_slice xs lo hi = drop (py_bound (length xs) lo) (take (py_bound (length xs) hi) xs)"

text \<open>
  \<open>get_batch\<close> of generate_samples.py (lines 211-225). \<open>main\<close> sets
  \<open>args.batch_size = 1\<close>, so \<open>tokens.view(args.batch_size, -1)\<close> is the one row of the
  context tokens. For a tensor without elements the size that \<open>-1\<close> stands for is
  ambiguous, and \<open>view\<close> raises RuntimeError.
\<close>

definition generate_get_batch ::
  "args \<Rightarrow> int list \<Rightarrow> py_error + (int list list \<times> tensor4 \<times> int list list)" where
  "generate_get_batch a context_tokens =
     (if context_tokens = [] then Inl RuntimeError
      else
        (let tokens = [context_tokens]
         in case get_masks_and_position_ids tokens (eod_token a) False False None None
                   (transformer_xl a) (Some (mem_length a)) of
              Inl e \<Rightarrow> Inl e
            | Inr (attention_mask, loss_mask, position_ids) \<Rightarrow>
                Inr (tokens, attention_mask, position_ids)))"

text \<open>
  The \<open>while counter < (args.out_seq_length - org_context_length)\<close> loop of
  \<open>sample_sequence\<close> (lines 265-290). \<open>tokens\<close> is the one row of the token tensor.
  After the first pass the model sees only the last token, its position and an
  attention mask of ones over \<open>args.mem_length + 1\<close> keys (RuntimeError for a negative
  size). The tokens are printed when the model-parallel rank is 0 and \<open>counter\<close> is a
  multiple of 16 and of 128 (\<open>is_end\<close> is false there). The logits have one position
  per input token, so \<open>logits[:, -1]\<close> is an IndexError when the row handed to the model
  is empty: an empty row of tokens on the first pass, an empty slice later.
\<close>

definition model_input_row :: "int \<Rightarrow> int \<Rightarrow> int list \<Rightarrow> int list" where
  "model_input_row org_context_length counter tokens =
     (if counter = 0 then tokens
      else (let index = org_context_length + counter in py_slice tokens (index - 1) index))"

function sample_loop ::
  "('w, 'lg, 'm) framework \<Rightarrow> args \<Rightarrow> int \<Rightarrow> int \<Rightarrow> int list list \<Rightarrow> tensor4 \<Rightarrow> int \<Rightarrow>
   int list \<Rightarrow> 'm list \<Rightarrow> ('w, 'm) state \<Rightarrow>
   (py_error + (int list \<times> 'm list)) \<times> ('w, 'm) state" where
  "sample_loop fw a org_context_length end_token position_ids attention_mask counter tokens
       mems st =
     (if counter < out_seq_length a - org_context_length then
        (case (if counter = 0
               then Inr (model_fn fw (world st) [tokens] position_ids attention_mask mems)
               else
                 (let index = org_context_length + counter
                  in if mem_length a + 1 < 0 then Inl RuntimeError
                     else Inr (model_fn fw (world st) [py_slice tokens (index - 1) index]
                                 [[index - 1]]
                                 [[[replicate (nat (mem_length a + 1)) 1]]] mems))) of
           Inl e \<Rightarrow> (Inl e, st)
         | Inr (logits, mems') \<Rightarrow>
             (let st1 = emit fw (ModelCall mems mems') st
              in if model_input_row org_context_length counter tokens = []
                 then (Inl IndexError, st1)
                 else
                   (let prev = sample_token fw (world st1) logits;
                        st2 = emit fw (SampleToken prev) st1;
                        is_end = (prev = end_token)
                    in if is_end then (Inr (tokens, mems'), st2)
                       else
                         (let tokens' = tokens @ [prev];
                              counter' = counter + 1;
                              st3 = (if model_parallel_rank fw (world st2) = 0
                                        \<and> counter' mod 16 = 0
                                        \<and> (counter' mod 128 = 0 \<or> is_end)
                                     then emit fw (PrintTokens tokens') st2 else st2)
                          in sample_loop fw a org_context_length end_token position_ids
                               attention_mask counter' tokens' mems' st3))))
      else (Inr (tokens, mems), st))"
  by pat_completeness auto
termination
  by (relation "measure (\<lambda>(fw, a, org_context_length, end_token, position_ids, attention_mask,
                           counter, tokens, mems, st).
                   nat (out_seq_length a - org_context_length - counter))") auto

declare sample_loop.simps [simp del]

text \<open>
  \<open>sample_sequence\<close> (lines 256-292) returns \<open>output_tokens_list, mems\<close>; \<open>mems\<close> and
  \<open>end_token\<close> default to the empty list and to \<open>args.eod_token\<close>.
\<close>

definition sample_sequence ::
  "('w, 'lg, 'm) framework \<Rightarrow> args \<Rightarrow> int list \<Rightarrow> int \<Rightarrow> 'm list option \<Rightarrow> int option \<Rightarrow>
   ('w, 'm) state \<Rightarrow> (py_error + (int list \<times> 'm list)) \<times> ('w, 'm) state" where
  "sample_sequence fw a context_tokens context_length mems end_token st =
     (case generate_get_batch a context_tokens of
        Inl e \<Rightarrow> (Inl e, st)
      | Inr (tokens, attention_mask, position_ids) \<Rightarrow>
          (let counter = 0;
               mems' = (case mems of None \<Rightarrow> [] | Some m \<Rightarrow> m);
               end_token' = (case end_token of None \<Rightarrow> eod_token a | Some t \<Rightarrow> t);
               org_context_length = context_length
           in sample_loop fw a org_context_length end_token' position_ids attention_mask
                counter (concat tokens) mems' st))"

section \<open>Reading the trace\<close>

text \<open>\<open>emits\<close> performs a list of events in order.\<close>

definition emits ::
  "('w, 'lg, 'm) framework \<Rightarrow> 'm event list \<Rightarrow> ('w, 'm) state \<Rightarrow> ('w, 'm) state" where
  "emits fw es st = fold (emit fw) es st"

fun is_model_call :: "'m event \<Rightarrow> bool" where
  "is_model_call (ModelCall i out) = True"
| "is_model_call _ = False"

fun is_backward :: "'m event \<Rightarrow> bool" where
  "is_backward (LossBackward l) = True"
| "is_backward (OptimizerBackward l) = True"
| "is_backward (EngineBackward l) = True"
| "is_backward _ = False"

fun is_save :: "'m event \<Rightarrow> bool" where
  "is_save (SaveCheckpoint i) = True"
| "is_save _ = False"


text \<open>
  \<open>mems_threaded train_mems eval_mems es\<close> reads a trace from left to right and holds
  when every model call receives the memories the preceding model call of the same kind
  returned. \<open>train_mems\<close> are the memories of the training loop; \<open>eval_mems\<close> is \<open>None\<close>
  while the model is in training mode and holds the memories of the running evaluation
  otherwise. \<open>model.eval()\<close> opens an evaluation, which starts from the empty list;
  \<open>model.train()\<close> returns to training, whose memories were kept meanwhile.
\<close>

fun mems_threaded :: "'m list \<Rightarrow> 'm list option \<Rightarrow> 'm event list \<Rightarrow> bool" where
  "mems_threaded tm ev [] = True"
| "mems_threaded tm ev (ModelEval # es) = mems_threaded tm (Some []) es"
| "mems_threaded tm ev (ModelTrain # es) = mems_threaded tm None es"
| "mems_threaded tm ev (ModelCall i out # es) =
     (case ev of
        None \<Rightarrow> i = tm \<and> mems_threaded out None es
      | Some em \<Rightarrow> i = em \<and> mems_threaded tm (Some out) es)"
| "mems_threaded tm ev (e # es) = mems_threaded tm ev es"

text \<open>The two memory lists after a trace.\<close>

fun mems_after :: "'m list \<Rightarrow> 'm list option \<Rightarrow> 'm event list \<Rightarrow> 'm list \<times> 'm list option" where
  "mems_after tm ev [] = (tm, ev)"
| "mems_after tm ev (ModelEval # es) = mems_after tm (Some []) es"
| "mems_after tm ev (ModelTrain # es) = mems_after tm None es"
| "mems_after tm ev (ModelCall i out # es) =
     (case ev of
        None \<Rightarrow> mems_after out None es
      | Some em \<Rightarrow> mems_after tm (Some out) es)"
| "mems_after tm ev (e # es) = mems_after tm ev es"

section \<open>A small framework to run the program on\<close>

text \<open>
  The world counts the events so far. Every batch is one row of three tokens, the model
  returns the world as its one memory, each token costs 1, and one peer contributes a
  loss of 3 to the all-reduce.
\<close>

definition example_framework :: "(nat, unit, nat) framework" where
  "example_framework =
     \<lparr>next_data = (\<lambda>w it. \<lparr>b_text = [[1, 2, 3]], b_target = [], b_loss_mask = [[1, 1, 1]],
                             b_attention_mask = []\<rparr>),
      model_fn = (\<lambda>w tokens position_ids attention_mask mems. ((), [w])),
      vocab_parallel_cross_entropy = (\<lambda>logits labels. map (map (\<lambda>t. 1)) labels),
      peer_losses = (\<lambda>w. [Some 3]),
      overflow = (\<lambda>w. False),
      is_gradient_accumulation_boundary = (\<lambda>w. True),
      sample_token = (\<lambda>w logits. int w),
      model_parallel_rank = (\<lambda>w. 0),
      effect = (\<lambda>e w. Suc w)\<rparr>"

definition example_args :: args where
  "example_args =
     \<lparr>deepspeed = False, deepspeed_activation_checkpointing = False, fp16 = True,
      world_size = 2, clip_grad = 1, train_iters = 2, eval_iters = 1, log_interval = 1,
      save = Some ''checkpoints'', save_interval = Some 2, eval_interval = None,
      exit_interval = None, do_train = True, do_valid = False, do_test = False,
      xl_dataset = False, mem_length = 0, eod_token = 0, reset_position_ids = False,
      reset_attention_mask = False, transformer_xl = False, out_seq_length = 5\<rparr>"

definition example_state :: "(nat, nat) state" where
  "example_state = \<lparr>world = 0, trace = []\<rparr>"

text \<open>The trace of \<open>train\<close> on this framework, started at iteration 0.\<close>

definition example_train_trace :: "nat event list" where
  "example_train_trace =
     [ModelTrain, FetchBatch TrainData, ModelCall [] [2], ZeroGrad,
      OptimizerBackward (Some 1), AllReduceLoss, UpdateMasterGrads,
      ClipMasterGrads 1, OptimizerStep, LrSchedulerStep,
      ReportIterationMetrics 1 (Some 2), ReportMemory 1,
      FetchBatch TrainData, ModelCall [2] [13], ZeroGrad,
      OptimizerBackward (Some 1), AllReduceLoss, UpdateMasterGrads,
      ClipMasterGrads 1, OptimizerStep, LrSchedulerStep,
      ReportIterationMetrics 2 (Some 2), SaveCheckpoint 2]"

text \<open>The events of one \<open>backward_step\<close>, in order.\<close>

definition backward_events :: "args \<Rightarrow> scalar \<Rightarrow> 'm event list" where
  "backward_events a l =
     (if deepspeed a then [EngineBackward l]
      else [ZeroGrad, if fp16 a then OptimizerBackward l else LossBackward l, AllReduceLoss]
           @ (if fp16 a then [UpdateMasterGrads] else [])
           @ (if clip_grad a > 0
              then [if fp16 a then ClipMasterGrads (clip_grad a) else ClipGradNorm (clip_grad a)]
              else []))"

text \<open>The parameter update that completes a \<open>train_step\<close>.\<close>

definition step_event :: "args \<Rightarrow> 'm event" where
  "step_event a = (if deepspeed a then ModelStep else OptimizerStep)"

text \<open>The events of one pass of the evaluation loop after a successful forward step.\<close>

definition eval_pass_events :: "args \<Rightarrow> iterator \<Rightarrow> 'm list \<Rightarrow> 'm list \<Rightarrow> 'm event list" where
  "eval_pass_events a it mems m1 =
     [FetchBatch it, ModelCall mems m1]
     @ (if deepspeed a \<and> deepspeed_activation_checkpointing a then [CheckpointingReset] else [])
     @ (if model_is_DDP a then [AllReduceLoss] else [])"

text \<open>
  The test before \<open>save_checkpoint\<close> in \<open>train\<close>, for the iteration number \<open>i\<close>, and the
  logging and checkpointing events of the iteration that reaches number \<open>i\<close>.
\<close>

definition save_due :: "args \<Rightarrow> int \<Rightarrow> bool" where
  "save_due a i = (truthy_str (save a) \<and> interval_hits (save_interval a) i)"

definition log_save_events :: "args \<Rightarrow> bool \<Rightarrow> int \<Rightarrow> scalar \<Rightarrow> 'm event list" where
  "log_save_events a report_memory_flag i tot =
     (if i mod log_interval a = 0
      then [ReportIterationMetrics i (scalar_div_int tot (log_interval a))]
           @ (if report_memory_flag then [ReportMemory i] else [])
      else [])
     @ (if save_due a i then [SaveCheckpoint i] else [])"

text \<open>No forward step raises.\<close>

definition forward_never_raises :: "('w, 'lg, 'm) framework \<Rightarrow> args \<Rightarrow> bool" where
  "forward_never_raises fw a =
     (\<forall>it mems st. \<exists>x st'. forward_step fw a it mems st = (Inr x, st'))"

text \<open>
  The same arguments with three training iterations and a validation of two passes
  after every second iteration, and the trace of \<open>train\<close> under them.
\<close>

definition example_eval_args :: args where
  "example_eval_args =
     example_args\<lparr>train_iters := 3, eval_iters := 2, do_valid := True, eval_interval := Some 2\<rparr>"

definition example_eval_train_trace :: "nat event list" where
  "example_eval_train_trace =
     [ModelTrain, FetchBatch TrainData, ModelCall [] [2], ZeroGrad,
      OptimizerBackward (Some 1), AllReduceLoss, UpdateMasterGrads,
      ClipMasterGrads 1, OptimizerStep, LrSchedulerStep,
      ReportIterationMetrics 1 (Some 2), ReportMemory 1,
      FetchBatch TrainData, ModelCall [2] [13], ZeroGrad,
      OptimizerBackward (Some 1), AllReduceLoss, UpdateMasterGrads,
      ClipMasterGrads 1, OptimizerStep, LrSchedulerStep,
      ReportIterationMetrics 2 (Some 2), SaveCheckpoint 2, ModelEval,
      FetchBatch ValData, ModelCall [] [25], AllReduceLoss,
      FetchBatch ValData, ModelCall [25] [28], AllReduceLoss, ModelTrain,
      ReportEvaluateMetrics (Some 2), FetchBatch TrainData,
      ModelCall [13] [33], ZeroGrad, OptimizerBackward (Some 1),
      AllReduceLoss, UpdateMasterGrads, ClipMasterGrads 1, OptimizerStep,
      LrSchedulerStep, ReportIterationMetrics 3 (Some 2)]"

text \<open>The trace of \<open>evaluate\<close> under these arguments, started in \<open>example_state\<close>.\<close>

definition example_evaluate_trace :: "nat event list" where
  "example_evaluate_trace =
     [ModelEval, FetchBatch ValData, ModelCall [] [2], AllReduceLoss,
      FetchBatch ValData, ModelCall [2] [5], AllReduceLoss, ModelTrain]"
section \<open>Properties of the vocabulary padding\<close>

lemma pad_vocab_loop_dvd: "multiple \<noteq> 0 \<Longrightarrow> multiple dvd pad_vocab_loop after multiple"
proof (induction after multiple rule: pad_vocab_loop.induct)
  case (1 after multiple)
  show ?case
  proof (cases "after mod multiple = 0")
    case True
    then show ?thesis by (subst pad_vocab_loop.simps) (simp add: mod_eq_0_iff_dvd)
  next
    case False
    with 1 show ?thesis by (subst pad_vocab_loop.simps) simp
  qed
qed

lemma pad_vocab_loop_ge: "after \<le> pad_vocab_loop after multiple"
proof (induction after multiple rule: pad_vocab_loop.induct)
  case (1 after multiple)
  show ?case
  proof (cases "multiple = 0 \<or> after mod multiple = 0")
    case True
    then show ?thesis by (subst pad_vocab_loop.simps) simp
  next
    case False
    with 1 have "after + 1 \<le> pad_vocab_loop (after + 1) multiple" by simp
    with False show ?thesis by (subst pad_vocab_loop.simps) simp
  qed
qed

lemma pad_vocab_loop_least:
  "multiple \<noteq> 0 \<Longrightarrow> after \<le> k \<Longrightarrow> multiple dvd k \<Longrightarrow> pad_vocab_loop after multiple \<le> k"
proof (induction after multiple rule: pad_vocab_loop.induct)
  case (1 after multiple)
  show ?case
  proof (cases "after mod multiple = 0")
    case True
    with 1 show ?thesis by (subst pad_vocab_loop.simps) simp
  next
    case False
    then have "after \<noteq> k" using 1(4) by (auto simp: mod_eq_0_iff_dvd)
    with 1 False show ?thesis by (subst pad_vocab_loop.simps) simp
  qed
qed

lemma pad_vocab_loop_closed:
  assumes m: "multiple \<noteq> 0"
  shows "pad_vocab_loop after multiple = after + (- after) mod \<bar>multiple\<bar>"
proof -
  let ?k = "after + (- after) mod \<bar>multiple\<bar>"
  let ?p = "pad_vocab_loop after multiple"
  have "\<bar>multiple\<bar> dvd (- after) - (- after) mod \<bar>multiple\<bar>" by (rule dvd_minus_mod)
  then have "\<bar>multiple\<bar> dvd - ((- after) - (- after) mod \<bar>multiple\<bar>)" by (simp only: dvd_minus_iff)
  then have d: "multiple dvd ?k" by (simp add: algebra_simps)
  have ge: "after \<le> ?k" using m by simp
  have le1: "?p \<le> ?k" by (rule pad_vocab_loop_least[OF m ge d])
  have pd: "\<bar>multiple\<bar> dvd ?p" using pad_vocab_loop_dvd[OF m, of after] by simp
  have nn: "0 \<le> ?p - after" using pad_vocab_loop_ge[of after multiple] by simp
  have "(- after) mod \<bar>multiple\<bar> = (?p - after) mod \<bar>multiple\<bar>"
    using pd by (metis dvd_eq_mod_eq_0 mod_diff_left_eq diff_0)
  also have "\<dots> \<le> ?p - after" by (rule zmod_le_nonneg_dividend[OF nn])
  finally have "?k \<le> ?p" by simp
  with le1 show ?thesis by simp
qed

lemma get_train_val_test_data_vocab_least:
  assumes "make_vocab_size_divisible_by * model_parallel_world_size \<noteq> 0"
  shows "\<exists>v. get_train_val_test_data_vocab num_tokens make_vocab_size_divisible_by
             model_parallel_world_size = Inr v
           \<and> num_tokens \<le> v
           \<and> make_vocab_size_divisible_by * model_parallel_world_size dvd v
           \<and> (\<forall>k. num_tokens \<le> k
                  \<and> make_vocab_size_divisible_by * model_parallel_world_size dvd k
                  \<longrightarrow> v \<le> k)"
  using assms
  by (simp add: get_train_val_test_data_vocab_def pad_vocab_loop_dvd pad_vocab_loop_ge
      pad_vocab_loop_least)

lemma prepare_tokenizer_vocab_least:
  assumes "make_vocab_size_divisible_by \<noteq> 0"
  shows "\<exists>v. prepare_tokenizer_vocab num_tokens make_vocab_size_divisible_by = Inr v
           \<and> num_tokens \<le> v
           \<and> make_vocab_size_divisible_by dvd v
           \<and> (\<forall>k. num_tokens \<le> k \<and> make_vocab_size_divisible_by dvd k \<longrightarrow> v \<le> k)"
  using assms
  by (simp add: prepare_tokenizer_vocab_def pad_vocab_loop_dvd pad_vocab_loop_ge
      pad_vocab_loop_least)

text \<open>
  C6. The claim: the size broadcast by \<open>get_train_val_test_data\<close> is the least multiple
  of \<open>make_vocab_size_divisible_by\<close> times the model-parallel world size that is at least
  \<open>num_tokens\<close>, and \<open>prepare_tokenizer\<close> computes the same padded size with the same
  multiple. The first half is \<open>get_train_val_test_data_vocab_least\<close>. The second half
  fails on the code: \<open>prepare_tokenizer\<close> pads to a multiple of
  \<open>make_vocab_size_divisible_by\<close> alone. For the GPT-2 vocabulary of 50257 tokens,
  the default divisor 128 and two model-parallel ranks, training builds a vocabulary of
  50432 entries and generation one of 50304.
\<close>

theorem vocab_padding_differs:
  "get_train_val_test_data_vocab 50257 128 2 = Inr 50432
   \<and> prepare_tokenizer_vocab 50257 128 = Inr 50304"
  by (simp add: get_train_val_test_data_vocab_def prepare_tokenizer_vocab_def
      pad_vocab_loop_closed)

section \<open>Properties of the CogView samples\<close>

lemma mk_sample_pad_to_len:
  assumes "0 \<le> ml"
  shows "mk_sample (pad_to_len ml pad ret) =
    \<lparr>sample_text = take (nat ml) (ret @ replicate (nat ml - length ret) pad),
     sample_loss_mask = replicate (min (length ret) (nat ml)) 1
                        @ replicate (nat ml - min (length ret) (nat ml)) 0\<rparr>"
  using assms
  by (auto simp: mk_sample_def pad_to_len_def py_repeat_def py_slice_to_def nat_diff_distrib' min_def)

text \<open>
  C10. For both dataset types and every row, the sample built by \<open>process_fn\<close> has a
  text of length exactly \<open>ml\<close>: the flattened row, padded with the [PAD] id when it is
  shorter than \<open>ml\<close> and cut to its first \<open>ml\<close> tokens when it is longer; its loss mask
  has the same length \<open>ml\<close>, is 1 on the first \<open>min(original length, ml)\<close> positions
  and 0 after them. A length is not negative, so \<open>ml\<close> is taken nonnegative.
\<close>

theorem process_fn_pads_to_ml:
  assumes "0 \<le> max_len args"
  shows "(\<exists>f s. get_dataset_by_type T pad ''TokenizedDataset'' args = Inr f
           \<and> f (TokenRow a) = Inr s
           \<and> length (sample_text s) = nat (max_len args)
           \<and> sample_text s = take (nat (max_len args))
                (concat a @ replicate (nat (max_len args) - length (concat a)) pad)
           \<and> length (sample_loss_mask s) = nat (max_len args)
           \<and> sample_loss_mask s = replicate (min (length (concat a)) (nat (max_len args))) 1
                @ replicate (nat (max_len args) - min (length (concat a)) (nat (max_len args))) 0)
    \<and> (\<exists>f s. get_dataset_by_type T pad ''TextCodeDataset'' args = Inr f
           \<and> f (TextCodeRow txt code) = Inr s
           \<and> length (sample_text s) = nat (max_len args)
           \<and> sample_text s = take (nat (max_len args))
                (T txt (concat code) @ replicate (nat (max_len args) - length (T txt (concat code))) pad)
           \<and> length (sample_loss_mask s) = nat (max_len args)
           \<and> sample_loss_mask s = replicate (min (length (T txt (concat code))) (nat (max_len args))) 1
                @ replicate (nat (max_len args) - min (length (T txt (concat code))) (nat (max_len args))) 0)"
  using assms
  by (auto simp: get_dataset_by_type_def process_fn_TokenizedDataset_def
      process_fn_TextCodeDataset_def mk_sample_pad_to_len)

theorem process_fn_pads_to_ml_witness:
  "0 \<le> max_len \<lparr>finetune = False, max_position_embeddings_finetune = 0, max_position_embeddings = 4\<rparr>
   \<and> (\<exists>f s. get_dataset_by_type (\<lambda>(t::int list) c. t @ c) 0 ''TokenizedDataset''
               \<lparr>finetune = False, max_position_embeddings_finetune = 0, max_position_embeddings = 4\<rparr> = Inr f
           \<and> f (TokenRow [[1, 2], [3]]) = Inr s
           \<and> sample_text s = [1, 2, 3, 0]
           \<and> sample_loss_mask s = [1, 1, 1, 0])
   \<and> (\<exists>f s. get_dataset_by_type (\<lambda>(t::int list) c. t @ c) 0 ''TextCodeDataset''
               \<lparr>finetune = False, max_position_embeddings_finetune = 0, max_position_embeddings = 4\<rparr> = Inr f
           \<and> f (TextCodeRow [7, 8] [[1, 2], [3, 4]]) = Inr s
           \<and> sample_text s = [7, 8, 1, 2]
           \<and> sample_loss_mask s = [1, 1, 1, 1])"
proof -
  let ?args = "\<lparr>finetune = False, max_position_embeddings_finetune = 0, max_position_embeddings = 4\<rparr>"
  have ml: "max_len ?args = 4" by (simp add: max_len_def)
  then have h: "0 \<le> max_len ?args" by simp
  from process_fn_pads_to_ml [OF h, of "\<lambda>(t::int list) c. t @ c" 0 "[[1, 2], [3]]" "[7, 8]" "[[1, 2], [3, 4]]"]
  show ?thesis unfolding ml by (simp add: numeral_eq_Suc) blast
qed

section \<open>Properties of the attention mask\<close>

lemma map_enumerate_nth:
  "map (\<lambda>(i, x). f i x) (enumerate 0 xs) = map (\<lambda>i. f i (xs ! i)) [0..<length xs]"
  by (rule nth_equalityI) (simp_all add: nth_enumerate_eq)

lemma triu_ones:
  "triu k (torch_ones3 b r c) =
     replicate b (map (\<lambda>i. map (\<lambda>j. if k \<le> int j - int i then 1 else 0) [0..<c]) [0..<r])"
  by (simp add: triu_def torch_ones3_def torch_ones2_def map_enumerate_nth map_replicate_const
      cong: map_cong)

lemma tril_band:
  "tril m [map (\<lambda>i. map (\<lambda>j. f i j) [0..<c]) [0..<r]] =
     [map (\<lambda>i. map (\<lambda>j. if int j - int i \<le> m then f i j else 0) [0..<c]) [0..<r]]"
  by (simp add: tril_def map_enumerate_nth cong: map_cong)

lemma xl_mask_closed:
  assumes "0 \<le> int S + M"
  shows "attention_mask_lower_triangular B S ra None True (Some M) =
    Inr [map (\<lambda>i. map (\<lambda>j. if int j - int i \<le> M
                              then (if 1 - int S + M \<le> int j - int i then 1 else 0) else 0)
                     [0..<nat (int S + M)]) [0..<S]]"
  using assms
  by (simp add: attention_mask_lower_triangular_def triu_ones tril_band)

lemma xl_mask_example:
  "get_masks_and_position_ids [[5, 6]] 0 False False None None True (Some 1)
     = Inr ([[[[1, 1, 0], [0, 1, 1]]]], [[1, 1]], [[0, 1]])"
  by (simp add: get_masks_and_position_ids_def attention_mask_lower_triangular_def
      seq_length_of_def triu_def tril_def torch_ones3_def torch_ones2_def unsqueeze1_def
      numeral_eq_Suc upt_rec)

text \<open>
  C2, as stated, asks that with \<open>transformer_xl=True\<close> and \<open>attention_mask=None\<close> every
  query position may attend to the \<open>mem_length\<close> memory positions. The code does not do
  that: for a segment of two tokens and one memory position the mask is
  \<open>[[1, 1, 0], [0, 1, 1]]\<close>, and the second query position (row 1) is barred from the
  memory position (column 0).
\<close>

theorem xl_attention_mask_not_all_memory:
  "get_masks_and_position_ids [[5, 6]] 0 False False None None True (Some 1)
     = Inr ([[[[1, 1, 0], [0, 1, 1]]]], [[1, 1]], [[0, 1]])
   \<and> [[[[1, 1, 0], [0, 1, 1 :: real]]]] ! 0 ! 0 ! 1 ! 0 = 0"
  by (simp add: xl_mask_example)

text \<open>
  C2, amended. For every batch with \<open>transformer_xl=True\<close>, \<open>attention_mask=None\<close> and a
  memory length \<open>M \<ge> 0\<close>, the mask has shape \<open>(1, 1, S, S + M)\<close> for the segment length
  \<open>S\<close>, and its entry for query position \<open>i\<close> and key position \<open>j\<close> is 1 exactly when
  \<open>i + 1 - S + M \<le> j \<le> i + M\<close>. Key \<open>i + M\<close> is the query's own position: no later
  (future) key is open, every earlier key of the current segment (\<open>M \<le> j\<close>) is open,
  and of the memory keys (\<open>j < M\<close>) only those from \<open>i + 1 - S + M\<close> on are open, a
  window of \<open>S\<close> keys in all.
\<close>

theorem xl_attention_mask_band:
  assumes "0 \<le> M"
  shows "\<exists>am lm pos.
           get_masks_and_position_ids data eod reset_pos reset_att loss_mask None True (Some M) = Inr (am, lm, pos)
         \<and> length am = 1 \<and> length (am ! 0) = 1
         \<and> length (am ! 0 ! 0) = seq_length_of data
         \<and> (\<forall>i < seq_length_of data. length (am ! 0 ! 0 ! i) = seq_length_of data + nat M)
         \<and> (\<forall>i < seq_length_of data. \<forall>j < seq_length_of data + nat M.
               am ! 0 ! 0 ! i ! j =
                 (if int i + 1 - int (seq_length_of data) + M \<le> int j \<and> int j \<le> int i + M
                  then 1 else 0))"
proof -
  let ?S = "seq_length_of data"
  have nn: "0 \<le> int ?S + M" using assms by simp
  have n: "nat (int ?S + M) = ?S + nat M" using assms by (simp add: nat_add_distrib)
  show ?thesis
    unfolding get_masks_and_position_ids_def Let_def xl_mask_closed[OF nn] n
    by (auto simp: unsqueeze1_def)
qed

theorem xl_attention_mask_band_witness:
  "(0::int) \<le> 1
   \<and> (\<exists>am lm pos.
         get_masks_and_position_ids [[5, 6]] 0 False False None None True (Some 1)
           = Inr (am, lm, pos)
       \<and> length am = 1 \<and> length (am ! 0) = 1 \<and> length (am ! 0 ! 0) = 2
       \<and> am ! 0 ! 0 ! 0 ! 0 = 1 \<and> am ! 0 ! 0 ! 0 ! 1 = 1 \<and> am ! 0 ! 0 ! 0 ! 2 = 0
       \<and> am ! 0 ! 0 ! 1 ! 0 = 0 \<and> am ! 0 ! 0 ! 1 ! 1 = 1 \<and> am ! 0 ! 0 ! 1 ! 2 = 1)"
proof -
  have h: "(0::int) \<le> 1" by simp
  have S: "seq_length_of [[5, 6]] = 2" by (simp add: seq_length_of_def)
  from xl_attention_mask_band [OF h, of "[[5, 6]]" 0 False False None]
  obtain am lm pos where
    r: "get_masks_and_position_ids [[5, 6]] 0 False False None None True (Some 1)
          = Inr (am, lm, pos)"
    and l: "length am = 1" "length (am ! 0) = 1" "length (am ! 0 ! 0) = 2"
    and e: "\<forall>i < 2. \<forall>j < 3. am ! 0 ! 0 ! i ! j =
                 (if int i + 1 - 2 + 1 \<le> int j \<and> int j \<le> int i + 1 then 1 else 0)"
    unfolding S by auto
  have "am ! 0 ! 0 ! 0 ! 0 = 1" "am ! 0 ! 0 ! 0 ! 1 = 1" "am ! 0 ! 0 ! 0 ! 2 = 0"
       "am ! 0 ! 0 ! 1 ! 0 = 0" "am ! 0 ! 0 ! 1 ! 1 = 1" "am ! 0 ! 0 ! 1 ! 2 = 1"
    using e by simp_all
  with r l h show ?thesis by blast
qed

section \<open>Traces of the training functions\<close>

lemma trace_emit [simp]: "trace (emit fw e st) = trace st @ [e]"
  by (simp add: emit_def)

lemma world_emit [simp]: "world (emit fw e st) = effect fw e (world st)"
  by (simp add: emit_def)

lemma emits_Nil [simp]: "emits fw [] st = st"
  by (simp add: emits_def)

lemma emits_Cons [simp]: "emits fw (e # es) st = emits fw es (emit fw e st)"
  by (simp add: emits_def)

lemma emits_append [simp]: "emits fw (xs @ ys) st = emits fw ys (emits fw xs st)"
  by (simp add: emits_def)

lemma trace_emits [simp]: "trace (emits fw es st) = trace st @ es"
  by (induction es arbitrary: st) simp_all

lemma world_emits: "world (emits fw es st) = fold (effect fw) es (world st)"
  by (induction es arbitrary: st) simp_all

lemma scalar_sum_Some: "scalar_sum (map Some xs) = Some (sum_list xs)"
  by (induction xs) (simp_all add: scalar_sum_def scalar_add_def)

lemma emit_emits: "emit fw e st = emits fw [e] st"
  by simp

lemma snd_get_batch: "snd (get_batch fw a it st) = emit fw (FetchBatch it) st"
  by (simp add: get_batch_def Let_def split: prod.splits sum.splits)

lemma forward_step_cases:
  assumes "forward_step fw a it mems st = (r, st')"
  shows "(\<exists>e. r = Inl e \<and> st' = emits fw [FetchBatch it] st)
       \<or> (\<exists>mems'. st' = emits fw [FetchBatch it, ModelCall mems mems']  st
              \<and> ((\<exists>e. r = Inl e) \<or> (\<exists>l. r = Inr (l, mems'))))"
proof -
  obtain rb sb where gb: "get_batch fw a it st = (rb, sb)" by (cases "get_batch fw a it st")
  then have sb: "sb = emit fw (FetchBatch it) st" using snd_get_batch[of fw a it st] by simp
  show ?thesis using assms gb sb
    by (auto simp: forward_step_def Let_def split: sum.splits prod.splits)
qed

lemma snd_backward_step: "snd (backward_step fw a l st) = emits fw (backward_events a l) st"
  by (simp add: backward_step_def backward_events_def Let_def USE_TORCH_DDP_def)

lemma backward_step_eq:
  "backward_step fw a l st = (fst (backward_step fw a l st), emits fw (backward_events a l) st)"
  using snd_backward_step[of fw a l st] by (cases "backward_step fw a l st") simp

lemma forward_step_Inr_state:
  assumes "forward_step fw a it mems st = (Inr (l, m1), st1)"
  shows "st1 = emits fw [FetchBatch it, ModelCall mems m1] st"
  using forward_step_cases[OF assms] by auto

lemma forward_step_Inl_state:
  assumes "forward_step fw a it mems st = (Inl e, st1)"
  shows "st1 = emits fw [FetchBatch it] st \<or> (\<exists>m1. st1 = emits fw [FetchBatch it, ModelCall mems m1] st)"
  using forward_step_cases[OF assms] by auto

lemma train_step_unfold:
  "train_step fw a it mems st =
     (case forward_step fw a it mems st of
        (Inl e, st1) \<Rightarrow> Some (Inl e, st1)
      | (Inr (l, m1), st1) \<Rightarrow>
          if deepspeed a \<and> \<not> is_gradient_accumulation_boundary fw
               (world (emits fw (backward_events a l) st1))
          then train_step fw a it m1 (emits fw (backward_events a l @ [ModelStep]) st1)
          else
            (let st3 = emits fw (backward_events a l @ [step_event a]) st1;
                 ovf = (fp16 a \<and> overflow fw (world st3))
             in Some (Inr (fst (backward_step fw a l st1), if ovf then 1 else 0, m1),
                      if ovf then st3 else emit fw LrSchedulerStep st3)))"
proof -
  obtain rf st1 where f: "forward_step fw a it mems st = (rf, st1)"
    by (cases "forward_step fw a it mems st")
  show ?thesis
  proof (cases rf)
    case (Inl e)
    with f show ?thesis by (subst train_step.simps) simp
  next
    case (Inr p)
    obtain l m1 where p: "p = (l, m1)" by (cases p)
    obtain x s2 where b: "backward_step fw a l st1 = (x, s2)"
      by (cases "backward_step fw a l st1")
    have s2: "s2 = emits fw (backward_events a l) st1"
      using snd_backward_step[of fw a l st1] b by simp
    show ?thesis
      by (subst train_step.simps) (simp add: f Inr p b s2 Let_def step_event_def)
  qed
qed

lemma train_step_induct [consumes 1, case_names Raise Final Again]:
  assumes run: "train_step fw a it mems st = Some (r, st')"
    and Raise: "\<And>mems st e st1. forward_step fw a it mems st = (Inl e, st1) \<Longrightarrow> P mems st (Inl e) st1"
    and Final: "\<And>mems st l m1 st1 st3 ovf.
        forward_step fw a it mems st = (Inr (l, m1), st1) \<Longrightarrow>
        \<not> (deepspeed a \<and> \<not> is_gradient_accumulation_boundary fw
               (world (emits fw (backward_events a l) st1))) \<Longrightarrow>
        st3 = emits fw (backward_events a l @ [step_event a]) st1 \<Longrightarrow>
        ovf = (fp16 a \<and> overflow fw (world st3)) \<Longrightarrow>
        P mems st (Inr (fst (backward_step fw a l st1), if ovf then 1 else 0, m1))
          (if ovf then st3 else emit fw LrSchedulerStep st3)"
    and Again: "\<And>mems st l m1 st1 r st'.
        forward_step fw a it mems st = (Inr (l, m1), st1) \<Longrightarrow>
        deepspeed a \<Longrightarrow>
        \<not> is_gradient_accumulation_boundary fw (world (emits fw (backward_events a l) st1)) \<Longrightarrow>
        P m1 (emits fw (backward_events a l @ [ModelStep]) st1) r st' \<Longrightarrow>
        P mems st r st'"
  shows "P mems st r st'"
proof -
  have "fw' = fw \<longrightarrow> a' = a \<longrightarrow> it' = it \<longrightarrow> P m s (fst y) (snd y)"
    if "train_step fw' a' it' m s = Some y" for fw' a' it' m s y
  proof (rule train_step.raw_induct
      [where P = "\<lambda>fw' a' it' m s y. fw' = fw \<longrightarrow> a' = a \<longrightarrow> it' = it \<longrightarrow> P m s (fst y) (snd y)",
       OF _ that], goal_cases)
    case (1 ts fw' a' it' m s y)
    show ?case
    proof (intro impI)
      assume eq: "fw' = fw" "a' = a" "it' = it"
      obtain rf st1 where f: "forward_step fw a it m s = (rf, st1)"
        by (cases "forward_step fw a it m s")
      show "P m s (fst y) (snd y)"
      proof (cases rf)
        case (Inl e)
        with 1(2) f eq have "y = (Inl e, st1)" by simp
        with Raise f Inl show ?thesis by simp
      next
        case (Inr p)
        obtain l m1 where p: "p = (l, m1)" by (cases p)
        note ff = f[unfolded Inr p]
        obtain x s2 where b: "backward_step fw a l st1 = (x, s2)"
          by (cases "backward_step fw a l st1")
        have s2: "s2 = emits fw (backward_events a l) st1"
          using snd_backward_step[of fw a l st1] b by simp
        show ?thesis
        proof (cases "deepspeed a \<and> \<not> is_gradient_accumulation_boundary fw (world s2)")
          case True
          have rec: "ts fw a it m1 (emit fw ModelStep s2) = Some y"
            using 1(2) ff eq True b by simp
          from 1(1)[OF rec] have "P m1 (emit fw ModelStep s2) (fst y) (snd y)" by simp
          then have "P m1 (emits fw (backward_events a l @ [ModelStep]) st1) (fst y) (snd y)"
            by (simp add: s2)
          with Again[OF ff] True s2 show ?thesis by blast
        next
          case False
          let ?st3 = "emits fw (backward_events a l @ [step_event a]) st1"
          let ?ovf = "fp16 a \<and> overflow fw (world ?st3)"
          have "y = (Inr (fst (backward_step fw a l st1), if ?ovf then 1 else 0, m1),
                     if ?ovf then ?st3 else emit fw LrSchedulerStep ?st3)"
            using 1(2) ff eq False b s2 by (auto simp: Let_def step_event_def)
          with Final[OF ff False[unfolded s2] refl refl] show ?thesis by simp
        qed
      qed
    qed
  qed
  from this[OF run] show ?thesis by simp
qed

lemma mems_threaded_append:
  "mems_threaded tm ev (xs @ ys) =
     (mems_threaded tm ev xs \<and> mems_threaded (fst (mems_after tm ev xs)) (snd (mems_after tm ev xs)) ys)"
  by (induction tm ev xs rule: mems_threaded.induct) (auto split: option.splits)

lemma mems_after_append:
  "mems_after tm ev (xs @ ys) = mems_after (fst (mems_after tm ev xs)) (snd (mems_after tm ev xs)) ys"
  by (induction tm ev xs rule: mems_after.induct) (auto split: option.splits)

lemma backward_events_threaded [simp]:
  "mems_threaded tm ev (backward_events a l) = True"
  "mems_after tm ev (backward_events a l) = (tm, ev)"
  "filter is_save (backward_events a l) = []"
  "count_list (backward_events a l) LrSchedulerStep = 0"
  "count_list (backward_events a l) OptimizerStep = 0"
  "filter is_model_call (backward_events a l) = []"
  "length (filter is_backward (backward_events a l)) = 1"
  by (simp_all add: backward_events_def)

lemma step_event_simps [simp]:
  "mems_threaded tm ev (step_event a # es) = mems_threaded tm ev es"
  "mems_after tm ev (step_event a # es) = mems_after tm ev es"
  "is_save (step_event a) = False"
  "is_model_call (step_event a) = False"
  "is_backward (step_event a) = False"
  "step_event a \<noteq> LrSchedulerStep"
  by (simp_all add: step_event_def)

lemma train_step_events:
  assumes "train_step fw a it mems st = Some (r, st')"
  shows "\<exists>new. st' = emits fw new st \<and> filter is_save new = []
           \<and> mems_threaded mems None new
           \<and> (\<forall>l sk m'. r = Inr (l, sk, m') \<longrightarrow>
                 mems_after mems None new = (m', None)
               \<and> int (count_list new LrSchedulerStep) + sk = 1)"
  using assms
proof (induction rule: train_step_induct)
  case (Raise mems st e st1)
  from forward_step_Inl_state[OF Raise] show ?case
  proof
    assume "st1 = emits fw [FetchBatch it] st"
    then show ?thesis by (intro exI[of _ "[FetchBatch it]"]) simp
  next
    assume "\<exists>m1. st1 = emits fw [FetchBatch it, ModelCall mems m1] st"
    then obtain m1 where "st1 = emits fw [FetchBatch it, ModelCall mems m1] st" ..
    then show ?thesis by (intro exI[of _ "[FetchBatch it, ModelCall mems m1]"]) simp
  qed
next
  case (Final mems st l m1 st1 st3 ovf)
  note s1 = forward_step_Inr_state[OF Final(1)]
  let ?new = "[FetchBatch it, ModelCall mems m1] @ backward_events a l @ [step_event a]
              @ (if ovf then [] else [LrSchedulerStep])"
  have "(if ovf then st3 else emit fw LrSchedulerStep st3) = emits fw ?new st"
    using s1 Final(3) by simp
  moreover have "filter is_save ?new = []" by simp
  moreover have "mems_threaded mems None ?new"
    by (simp add: mems_threaded_append mems_after_append)
  moreover have "mems_after mems None ?new = (m1, None)"
    by (simp add: mems_after_append)
  moreover have "int (count_list ?new LrSchedulerStep) + (if ovf then 1 else 0) = 1"
    by simp
  ultimately show ?case by (intro exI[of _ ?new]) simp
next
  case (Again mems st l m1 st1 r st')
  note s1 = forward_step_Inr_state[OF Again(1)]
  from Again(4) obtain new where n: "st' = emits fw new (emits fw (backward_events a l @ [ModelStep]) st1)"
    "filter is_save new = []" "mems_threaded m1 None new"
    "\<forall>l sk m'. r = Inr (l, sk, m') \<longrightarrow> mems_after m1 None new = (m', None)
               \<and> int (count_list new LrSchedulerStep) + sk = 1"
    by blast
  let ?new = "[FetchBatch it, ModelCall mems m1] @ backward_events a l @ [ModelStep] @ new"
  have "st' = emits fw ?new st" using n(1) s1 by simp
  moreover have "filter is_save ?new = []" using n(2) by simp
  moreover have "mems_threaded mems None ?new"
    using n(3) by (simp add: mems_threaded_append mems_after_append)
  moreover have "\<forall>l sk m'. r = Inr (l, sk, m') \<longrightarrow> mems_after mems None ?new = (m', None)
               \<and> int (count_list ?new LrSchedulerStep) + sk = 1"
    using n(4) by (simp add: mems_after_append)
  ultimately show ?case by (intro exI[of _ ?new]) simp
qed

lemma eval_pass_events_simps [simp]:
  "filter is_save (eval_pass_events a it mems m1) = []"
  "count_list (eval_pass_events a it mems m1) LrSchedulerStep = 0"
  "count_list (eval_pass_events a it mems m1) OptimizerStep = 0"
  "mems_threaded tm (Some mems) (eval_pass_events a it mems m1)"
  "mems_after tm (Some mems) (eval_pass_events a it mems m1) = (tm, Some m1)"
  "length (filter is_model_call (eval_pass_events a it mems m1)) = 1"
  by (simp_all add: eval_pass_events_def)

lemma evaluate_loop_step:
  assumes "i < eval_iters a" "\<not> (verbose \<and> log_interval a = 0)"
    "forward_step fw a it mems st = (Inr (l, m1), st1)"
  shows "\<exists>tot'. evaluate_loop fw a it verbose i tot mems st =
           evaluate_loop fw a it verbose (i + 1) tot' m1 (emits fw (eval_pass_events a it mems m1) st)"
  using assms forward_step_Inr_state[OF assms(3)]
  by (subst evaluate_loop.simps) (auto simp: Let_def eval_pass_events_def)

lemma evaluate_loop_raise:
  assumes "i < eval_iters a" "\<not> (verbose \<and> log_interval a = 0)"
    "forward_step fw a it mems st = (Inl e, st1)"
  shows "evaluate_loop fw a it verbose i tot mems st = (Inl e, st1)"
  using assms by (subst evaluate_loop.simps) (auto simp: Let_def)

lemma evaluate_loop_verbose_raise:
  assumes "i < eval_iters a" "verbose \<and> log_interval a = 0"
  shows "evaluate_loop fw a it verbose i tot mems st = (Inl ZeroDivisionError, st)"
  using assms by (subst evaluate_loop.simps) (auto simp: Let_def)

lemma evaluate_loop_done:
  assumes "\<not> i < eval_iters a"
  shows "evaluate_loop fw a it verbose i tot mems st = (Inr tot, st)"
  using assms by (subst evaluate_loop.simps) auto

lemma evaluate_loop_events:
  assumes "evaluate_loop fw a it verbose i tot mems st = (r, st')"
  shows "\<exists>new. st' = emits fw new st \<and> filter is_save new = []
           \<and> count_list new LrSchedulerStep = 0 \<and> count_list new OptimizerStep = 0
           \<and> (\<forall>tm. mems_threaded tm (Some mems) new)
           \<and> (\<forall>tm. \<exists>em. mems_after tm (Some mems) new = (tm, Some em))
           \<and> (\<forall>x. r = Inr x \<longrightarrow> length (filter is_model_call new) = nat (eval_iters a - i))"
  using assms
proof (induction "nat (eval_iters a - i)" arbitrary: i tot mems st)
  case 0
  then have "\<not> i < eval_iters a" by simp
  with 0(2) have "st' = st" "r = Inr tot" by (simp_all add: evaluate_loop_done)
  with 0(1) show ?case by (intro exI[of _ "[]"]) simp
next
  case (Suc n)
  then have lt: "i < eval_iters a" by simp
  show ?case
  proof (cases "verbose \<and> log_interval a = 0")
    case True
    with lt Suc(3) have "st' = st" "r = Inl ZeroDivisionError"
      by (simp_all add: evaluate_loop_verbose_raise)
    then show ?thesis by (intro exI[of _ "[]"]) simp
  next
    case False
    obtain rf st1 where f: "forward_step fw a it mems st = (rf, st1)"
      by (cases "forward_step fw a it mems st")
    show ?thesis
    proof (cases rf)
      case (Inl e)
      with Suc(3) evaluate_loop_raise[OF lt False f[unfolded Inl], of tot]
      have r: "st' = st1" "r = Inl e" by simp_all
      from forward_step_Inl_state[OF f[unfolded Inl]] show ?thesis
      proof
        assume "st1 = emits fw [FetchBatch it] st"
        with r show ?thesis by (intro exI[of _ "[FetchBatch it]"]) simp
      next
        assume "\<exists>m1. st1 = emits fw [FetchBatch it, ModelCall mems m1] st"
        then obtain m1 where "st1 = emits fw [FetchBatch it, ModelCall mems m1] st" ..
        with r show ?thesis by (intro exI[of _ "[FetchBatch it, ModelCall mems m1]"]) simp
      qed
    next
      case (Inr p)
      obtain l m1 where p: "p = (l, m1)" by (cases p)
      from evaluate_loop_step[OF lt False f[unfolded Inr p], of tot]
      obtain tot' where
        "evaluate_loop fw a it verbose i tot mems st =
           evaluate_loop fw a it verbose (i + 1) tot' m1 (emits fw (eval_pass_events a it mems m1) st)"
        by blast
      with Suc(3) have rec: "evaluate_loop fw a it verbose (i + 1) tot' m1
          (emits fw (eval_pass_events a it mems m1) st) = (r, st')" by simp
      have n: "n = nat (eval_iters a - (i + 1))" using Suc(2) by simp
      from Suc(1)[OF n rec] obtain new where new:
        "st' = emits fw new (emits fw (eval_pass_events a it mems m1) st)"
        "filter is_save new = []" "count_list new LrSchedulerStep = 0"
        "count_list new OptimizerStep = 0" "\<forall>tm. mems_threaded tm (Some m1) new"
        "\<forall>tm. \<exists>em. mems_after tm (Some m1) new = (tm, Some em)"
        "\<forall>x. r = Inr x \<longrightarrow> length (filter is_model_call new) = nat (eval_iters a - (i + 1))"
        by blast
      let ?new = "eval_pass_events a it mems m1 @ new"
      have "st' = emits fw ?new st" using new(1) by simp
      moreover have "filter is_save ?new = []" using new(2) by simp
      moreover have "count_list ?new LrSchedulerStep = 0" "count_list ?new OptimizerStep = 0"
        using new(3,4) by simp_all
      moreover have "\<forall>tm. mems_threaded tm (Some mems) ?new"
        using new(5) by (simp add: mems_threaded_append)
      moreover have "\<forall>tm. \<exists>em. mems_after tm (Some mems) ?new = (tm, Some em)"
        using new(6) by (simp add: mems_after_append)
      moreover have "\<forall>x. r = Inr x \<longrightarrow> length (filter is_model_call ?new) = nat (eval_iters a - i)"
        using new(7) lt by (auto simp: nat_diff_distrib)
      ultimately show ?thesis by (intro exI[of _ ?new]) simp
    qed
  qed
qed

lemma evaluate_events:
  assumes "evaluate fw a it verbose st = (r, st')"
  shows "\<exists>new. st' = emits fw new st \<and> filter is_save new = []
           \<and> count_list new LrSchedulerStep = 0 \<and> count_list new OptimizerStep = 0
           \<and> (\<forall>tm ev. mems_threaded tm ev new)
           \<and> (\<forall>x. r = Inr x \<longrightarrow> (\<forall>tm ev. mems_after tm ev new = (tm, None))
                  \<and> length (filter is_model_call new) = nat (eval_iters a))"
proof -
  obtain rl sl where l: "evaluate_loop fw a it verbose 0 (Some 0) [] (emit fw ModelEval st) = (rl, sl)"
    by (cases "evaluate_loop fw a it verbose 0 (Some 0) [] (emit fw ModelEval st)")
  from evaluate_loop_events[OF l] obtain new where new:
    "sl = emits fw new (emit fw ModelEval st)" "filter is_save new = []"
    "count_list new LrSchedulerStep = 0" "count_list new OptimizerStep = 0"
    "\<forall>tm. mems_threaded tm (Some []) new"
    "\<forall>tm. \<exists>em. mems_after tm (Some []) new = (tm, Some em)"
    "\<forall>x. rl = Inr x \<longrightarrow> length (filter is_model_call new) = nat (eval_iters a - 0)"
    by blast
  show ?thesis
  proof (cases rl)
    case (Inl e)
    with assms l have "r = Inl e" "st' = sl" by (simp_all add: evaluate_def Let_def)
    with new show ?thesis by (intro exI[of _ "ModelEval # new"]) simp
  next
    case (Inr x)
    with assms l have st': "st' = emit fw ModelTrain sl"
      by (auto simp: evaluate_def Let_def split: if_splits)
    let ?new = "ModelEval # new @ [ModelTrain]"
    have "st' = emits fw ?new st" using st' new(1) by simp
    moreover have "filter is_save ?new = []" "count_list ?new LrSchedulerStep = 0"
      "count_list ?new OptimizerStep = 0" using new(2-4) by simp_all
    moreover have "\<forall>tm ev. mems_threaded tm ev ?new"
      using new(5) by (simp add: mems_threaded_append)
    moreover have "\<forall>tm ev. mems_after tm ev ?new = (tm, None)"
    proof (intro allI)
      fix tm ev
      from new(6) obtain em where "mems_after tm (Some []) new = (tm, Some em)" by blast
      then show "mems_after tm ev ?new = (tm, None)" by (simp add: mems_after_append)
    qed
    moreover have "length (filter is_model_call ?new) = nat (eval_iters a)"
      using new(7) Inr by simp
    ultimately show ?thesis by (intro exI[of _ ?new]) simp
  qed
qed

lemma evaluate_and_print_results_events:
  assumes "evaluate_and_print_results fw a it verbose st = (r, st')"
  shows "\<exists>new. st' = emits fw new st \<and> filter is_save new = []
           \<and> count_list new LrSchedulerStep = 0 \<and> count_list new OptimizerStep = 0
           \<and> (\<forall>tm ev. mems_threaded tm ev new)
           \<and> (\<forall>x. r = Inr x \<longrightarrow> (\<forall>tm ev. mems_after tm ev new = (tm, None)))"
proof -
  obtain re se where e: "evaluate fw a it verbose st = (re, se)"
    by (cases "evaluate fw a it verbose st")
  from evaluate_events[OF e] obtain new where new:
    "se = emits fw new st" "filter is_save new = []"
    "count_list new LrSchedulerStep = 0" "count_list new OptimizerStep = 0"
    "\<forall>tm ev. mems_threaded tm ev new"
    "\<forall>x. re = Inr x \<longrightarrow> (\<forall>tm ev. mems_after tm ev new = (tm, None))"
    by blast
  show ?thesis
  proof (cases re)
    case (Inl e')
    with assms e have "r = Inl e'" "st' = se" by (simp_all add: evaluate_and_print_results_def)
    with new show ?thesis by (intro exI[of _ new]) simp
  next
    case (Inr x)
    with assms e have "st' = emit fw (ReportEvaluateMetrics x) se"
      by (simp_all add: evaluate_and_print_results_def)
    with new Inr show ?thesis
      by (intro exI[of _ "new @ [ReportEvaluateMetrics x]"])
         (simp add: mems_threaded_append mems_after_append)
  qed
qed

lemma log_save_events_simps [simp]:
  "filter is_save (log_save_events a flag i tot) = (if save_due a i then [SaveCheckpoint i] else [])"
  "count_list (log_save_events a flag i tot) LrSchedulerStep = 0"
  "count_list (log_save_events a flag i tot) OptimizerStep = 0"
  "mems_threaded tm ev (log_save_events a flag i tot)"
  "mems_after tm ev (log_save_events a flag i tot) = (tm, ev)"
  by (simp_all add: log_save_events_def)

lemma train_body_unfold:
  assumes "train_step fw a TrainData mems st = Some (Inr (l, ski, m'), st1)"
    and "log_interval a \<noteq> 0"
  shows "train_body fw a i tot sk flag mems st =
     (case (if interval_hits (eval_interval a) (i + 1) \<and> do_valid a
            then evaluate_and_print_results fw a ValData False
                   (emits fw (log_save_events a flag (i + 1) (scalar_add tot l)) st1)
            else (Inr None, emits fw (log_save_events a flag (i + 1) (scalar_add tot l)) st1)) of
        (Inl e, st4) \<Rightarrow> Some (Inl e, st4)
      | (Inr _, st4) \<Rightarrow>
          if interval_hits (exit_interval a) (i + 1)
          then Some (Inl SystemExit, emit fw Barrier st4)
          else Some (Inr (if (i + 1) mod log_interval a = 0 then Some 0 else scalar_add tot l,
                          sk + ski,
                          if (i + 1) mod log_interval a = 0 then False else flag, m'), st4))"
proof (cases "(i + 1) mod log_interval a = 0")
  case True
  with assms show ?thesis
    by (cases flag; cases "save_due a (i + 1)")
       (simp_all add: train_body_def Let_def log_save_events_def save_due_def[symmetric])
next
  case False
  with assms show ?thesis
    by (cases "save_due a (i + 1)")
       (simp_all add: train_body_def Let_def log_save_events_def save_due_def[symmetric])
qed

lemma train_body_None:
  "train_step fw a TrainData mems st = None \<Longrightarrow> train_body fw a i tot sk flag mems st = None"
  by (simp add: train_body_def)

lemma train_body_raise:
  "train_step fw a TrainData mems st = Some (Inl e, st1) \<Longrightarrow>
   train_body fw a i tot sk flag mems st = Some (Inl e, st1)"
  by (simp add: train_body_def)

lemma train_body_log_zero:
  "train_step fw a TrainData mems st = Some (Inr x, st1) \<Longrightarrow> log_interval a = 0 \<Longrightarrow>
   train_body fw a i tot sk flag mems st = Some (Inl ZeroDivisionError, st1)"
  by (cases x) (simp add: train_body_def Let_def split: prod.splits)

lemma train_body_events:
  assumes "train_body fw a i tot sk flag mems st = Some (r, st')"
  shows "\<exists>new. st' = emits fw new st \<and> mems_threaded mems None new
           \<and> (\<forall>tot' sk' flag' m'. r = Inr (tot', sk', flag', m') \<longrightarrow>
                 mems_after mems None new = (m', None)
               \<and> sk' + int (count_list new LrSchedulerStep) = sk + 1
               \<and> filter is_save new = (if save_due a (i + 1) then [SaveCheckpoint (i + 1)] else []))"
proof (cases "train_step fw a TrainData mems st")
  case None
  with assms train_body_None[OF None] show ?thesis by simp
next
  case (Some y)
  obtain rs st1 where y: "y = (rs, st1)" by (cases y)
  note ts = Some[unfolded y]
  from train_step_events[OF ts] obtain pre where pre:
    "st1 = emits fw pre st" "filter is_save pre = []" "mems_threaded mems None pre"
    "\<forall>l sk m'. rs = Inr (l, sk, m') \<longrightarrow> mems_after mems None pre = (m', None)
               \<and> int (count_list pre LrSchedulerStep) + sk = 1"
    by blast
  show ?thesis
  proof (cases rs)
    case (Inl e)
    with assms train_body_raise[OF ts[unfolded Inl]] have "r = Inl e" "st' = st1" by simp_all
    with pre show ?thesis by (intro exI[of _ pre]) simp
  next
    case (Inr x)
    obtain l ski m1 where x: "x = (l, ski, m1)" by (cases x)
    note ts' = ts[unfolded Inr x]
    from pre(4) Inr x have after: "mems_after mems None pre = (m1, None)"
      and cnt: "int (count_list pre LrSchedulerStep) + ski = 1" by simp_all
    show ?thesis
    proof (cases "log_interval a = 0")
      case True
      with assms train_body_log_zero[OF ts[unfolded Inr] True]
      have "r = Inl ZeroDivisionError" "st' = st1" by simp_all
      with pre show ?thesis by (intro exI[of _ pre]) simp
    next
      case False
      let ?ls = "log_save_events a flag (i + 1) (scalar_add tot l)"
      let ?st3 = "emits fw ?ls st1"
      note body = train_body_unfold[OF ts' False, of i tot sk flag]
      show ?thesis
      proof (cases "interval_hits (eval_interval a) (i + 1) \<and> do_valid a")
        case True
        obtain re se where e: "evaluate_and_print_results fw a ValData False ?st3 = (re, se)"
          by (cases "evaluate_and_print_results fw a ValData False ?st3")
        from evaluate_and_print_results_events[OF e] obtain ev where ev:
          "se = emits fw ev ?st3" "filter is_save ev = []"
          "count_list ev LrSchedulerStep = 0" "count_list ev OptimizerStep = 0"
          "\<forall>tm ev'. mems_threaded tm ev' ev"
          "\<forall>x. re = Inr x \<longrightarrow> (\<forall>tm ev'. mems_after tm ev' ev = (tm, None))"
          by blast
        show ?thesis
        proof (cases re)
          case (Inl e')
          with assms body True e have "r = Inl e'" "st' = se" by simp_all
          with ev pre after show ?thesis
            by (intro exI[of _ "pre @ ?ls @ ev"])
               (simp add: mems_threaded_append mems_after_append)
        next
          case (Inr z)
          with ev(6) have ea: "\<forall>tm ev'. mems_after tm ev' ev = (tm, None)" by simp
          show ?thesis
          proof (cases "interval_hits (exit_interval a) (i + 1)")
            case True
            with assms body \<open>interval_hits (eval_interval a) (i + 1) \<and> do_valid a\<close> e Inr
            have "r = Inl SystemExit" "st' = emit fw Barrier se" by simp_all
            with ev pre after show ?thesis
              by (intro exI[of _ "pre @ ?ls @ ev @ [Barrier]"])
                 (simp add: mems_threaded_append mems_after_append)
          next
            case False
            with assms body \<open>interval_hits (eval_interval a) (i + 1) \<and> do_valid a\<close> e Inr
            have "\<exists>t f. r = Inr (t, sk + ski, f, m1)" "st' = se" by auto
            with ev pre after ea cnt show ?thesis
              by (intro exI[of _ "pre @ ?ls @ ev"])
                 (auto simp: mems_threaded_append mems_after_append)
          qed
        qed
      next
        case noeval: False
        show ?thesis
        proof (cases "interval_hits (exit_interval a) (i + 1)")
          case True
          with assms body noeval
          have "r = Inl SystemExit" "st' = emit fw Barrier ?st3" by auto
          with pre after show ?thesis
            by (intro exI[of _ "pre @ ?ls @ [Barrier]"])
               (simp add: mems_threaded_append mems_after_append)
        next
          case False
          with assms body noeval
          have "\<exists>t f. r = Inr (t, sk + ski, f, m1)" "st' = ?st3" by auto
          with pre after cnt show ?thesis
            by (intro exI[of _ "pre @ ?ls"])
               (auto simp: mems_threaded_append mems_after_append)
        qed
      qed
    qed
  qed
qed

lemma train_loop_done:
  "\<not> i < train_iters a \<Longrightarrow> train_loop fw a i tot sk flag mems st = Some (Inr (i, sk), st)"
  by (subst train_loop.simps) simp

lemma train_loop_step:
  "i < train_iters a \<Longrightarrow>
   train_loop fw a i tot sk flag mems st =
     (case train_body fw a i tot sk flag mems st of
        None \<Rightarrow> None
      | Some (Inl e, st') \<Rightarrow> Some (Inl e, st')
      | Some (Inr (tot', sk', flag', m'), st') \<Rightarrow> train_loop fw a (i + 1) tot' sk' flag' m' st')"
  by (subst train_loop.simps) simp

lemma train_loop_events:
  assumes "train_loop fw a i tot sk flag mems st = Some (r, st')"
  shows "\<exists>new. st' = emits fw new st \<and> mems_threaded mems None new
           \<and> (\<forall>itf skf. r = Inr (itf, skf) \<longrightarrow>
                 itf = max i (train_iters a)
               \<and> skf + int (count_list new LrSchedulerStep) = sk + (itf - i)
               \<and> filter is_save new = map SaveCheckpoint (filter (save_due a) [i + 1..itf]))"
  using assms
proof (induction "nat (train_iters a - i)" arbitrary: i tot sk flag mems st)
  case 0
  then have "\<not> i < train_iters a" by simp
  with 0(2) have "r = Inr (i, sk)" "st' = st" by (simp_all add: train_loop_done)
  with \<open>\<not> i < train_iters a\<close> show ?case by (intro exI[of _ "[]"]) simp
next
  case (Suc n)
  then have lt: "i < train_iters a" by simp
  note step = train_loop_step[OF lt, of fw tot sk flag mems st]
  show ?case
  proof (cases "train_body fw a i tot sk flag mems st")
    case None
    with step Suc(3) show ?thesis by simp
  next
    case (Some y)
    obtain rb sb where y: "y = (rb, sb)" by (cases y)
    note tb = Some[unfolded y]
    from train_body_events[OF tb] obtain pre where pre:
      "sb = emits fw pre st" "mems_threaded mems None pre"
      "\<forall>tot' sk' flag' m'. rb = Inr (tot', sk', flag', m') \<longrightarrow>
                 mems_after mems None pre = (m', None)
               \<and> sk' + int (count_list pre LrSchedulerStep) = sk + 1
               \<and> filter is_save pre = (if save_due a (i + 1) then [SaveCheckpoint (i + 1)] else [])"
      by blast
    show ?thesis
    proof (cases rb)
      case (Inl e)
      with step tb Suc(3) have "r = Inl e" "st' = sb" by simp_all
      with pre show ?thesis by (intro exI[of _ pre]) simp
    next
      case (Inr x)
      obtain tot' sk' flag' m' where x: "x = (tot', sk', flag', m')" by (cases x)
      from step tb Inr x Suc(3)
      have rec: "train_loop fw a (i + 1) tot' sk' flag' m' sb = Some (r, st')" by simp
      have n: "n = nat (train_iters a - (i + 1))" using Suc(2) by simp
      from Suc(1)[OF n rec] obtain new where new:
        "st' = emits fw new sb" "mems_threaded m' None new"
        "\<forall>itf skf. r = Inr (itf, skf) \<longrightarrow>
                 itf = max (i + 1) (train_iters a)
               \<and> skf + int (count_list new LrSchedulerStep) = sk' + (itf - (i + 1))
               \<and> filter is_save new = map SaveCheckpoint (filter (save_due a) [i + 1 + 1..itf])"
        by blast
      from pre(3) Inr x have after: "mems_after mems None pre = (m', None)"
        and cnt: "sk' + int (count_list pre LrSchedulerStep) = sk + 1"
        and sv: "filter is_save pre = (if save_due a (i + 1) then [SaveCheckpoint (i + 1)] else [])"
        by simp_all
      have "st' = emits fw (pre @ new) st" using new(1) pre(1) by simp
      moreover have "mems_threaded mems None (pre @ new)"
        using pre(2) new(2) after by (simp add: mems_threaded_append)
      moreover have "\<forall>itf skf. r = Inr (itf, skf) \<longrightarrow>
                 itf = max i (train_iters a)
               \<and> skf + int (count_list (pre @ new) LrSchedulerStep) = sk + (itf - i)
               \<and> filter is_save (pre @ new) = map SaveCheckpoint (filter (save_due a) [i + 1..itf])"
      proof (intro allI impI)
        fix itf skf assume r: "r = Inr (itf, skf)"
        with new(3) have itf: "itf = max (i + 1) (train_iters a)"
          and c: "skf + int (count_list new LrSchedulerStep) = sk' + (itf - (i + 1))"
          and s: "filter is_save new = map SaveCheckpoint (filter (save_due a) [i + 1 + 1..itf])"
          by simp_all
        have le: "i + 1 \<le> itf" using itf by simp
        have "[i + 1..itf] = (i + 1) # [i + 1 + 1..itf]" using le by (simp add: upto_rec1)
        then have "filter is_save (pre @ new) = map SaveCheckpoint (filter (save_due a) [i + 1..itf])"
          using sv s by simp
        moreover have "itf = max i (train_iters a)" using itf lt by simp
        moreover have "skf + int (count_list (pre @ new) LrSchedulerStep) = sk + (itf - i)"
          using c cnt by simp
        ultimately show "itf = max i (train_iters a)
               \<and> skf + int (count_list (pre @ new) LrSchedulerStep) = sk + (itf - i)
               \<and> filter is_save (pre @ new) = map SaveCheckpoint (filter (save_due a) [i + 1..itf])"
          by simp
      qed
      ultimately show ?thesis by (intro exI[of _ "pre @ new"]) simp
    qed
  qed
qed

lemma train_events:
  assumes "train fw a i st = Some (r, st')"
  shows "\<exists>new. st' = emits fw new st \<and> (\<forall>ev. mems_threaded [] ev new)
           \<and> (\<forall>itf skf. r = Inr (itf, skf) \<longrightarrow>
                 itf = max i (train_iters a)
               \<and> skf + int (count_list new LrSchedulerStep) = itf - i
               \<and> filter is_save new = map SaveCheckpoint (filter (save_due a) [i + 1..itf]))"
proof -
  from assms have "train_loop fw a i (Some 0) 0 True [] (emit fw ModelTrain st) = Some (r, st')"
    by (simp add: train_def)
  from train_loop_events[OF this] obtain new where new:
    "st' = emits fw new (emit fw ModelTrain st)" "mems_threaded [] None new"
    "\<forall>itf skf. r = Inr (itf, skf) \<longrightarrow>
                 itf = max i (train_iters a)
               \<and> skf + int (count_list new LrSchedulerStep) = 0 + (itf - i)
               \<and> filter is_save new = map SaveCheckpoint (filter (save_due a) [i + 1..itf])"
    by blast
  then show ?thesis by (intro exI[of _ "ModelTrain # new"]) simp
qed

lemma forward_never_raisesD:
  assumes "forward_never_raises fw a"
  obtains l m1 st1 where "forward_step fw a it mems st = (Inr (l, m1), st1)"
  using assms unfolding forward_never_raises_def by (metis surj_pair)

lemma evaluate_loop_total:
  assumes "forward_never_raises fw a" "\<not> (verbose \<and> log_interval a = 0)"
  shows "\<exists>x st'. evaluate_loop fw a it verbose i tot mems st = (Inr x, st')"
proof (induction "nat (eval_iters a - i)" arbitrary: i tot mems st)
  case 0
  then have "\<not> i < eval_iters a" by simp
  then show ?case by (simp add: evaluate_loop_done)
next
  case (Suc n)
  then have lt: "i < eval_iters a" by simp
  obtain l m1 st1 where f: "forward_step fw a it mems st = (Inr (l, m1), st1)"
    using assms(1) by (rule forward_never_raisesD)
  from evaluate_loop_step[OF lt assms(2) f, of tot] obtain tot' where
    e: "evaluate_loop fw a it verbose i tot mems st =
        evaluate_loop fw a it verbose (i + 1) tot' m1 (emits fw (eval_pass_events a it mems m1) st)"
    by blast
  have n: "n = nat (eval_iters a - (i + 1))" using Suc(2) by simp
  from Suc(1)[OF n] e show ?case by simp
qed

lemma evaluate_and_print_results_total:
  assumes "forward_never_raises fw a" "\<not> (verbose \<and> log_interval a = 0)" "eval_iters a \<noteq> 0"
  shows "\<exists>x st'. evaluate_and_print_results fw a it verbose st = (Inr x, st')"
proof -
  from evaluate_loop_total[OF assms(1,2)] obtain x sl where
    "evaluate_loop fw a it verbose 0 (Some 0) [] (emit fw ModelEval st) = (Inr x, sl)" by blast
  with assms(3) show ?thesis
    by (simp add: evaluate_and_print_results_def evaluate_def Let_def)
qed

lemma train_step_no_deepspeed:
  assumes "\<not> deepspeed a" "forward_step fw a it mems st = (Inr (l, m1), st1)"
  shows "\<exists>lr sk ovf. train_step fw a it mems st =
           Some (Inr (lr, sk, m1),
                 emits fw ([FetchBatch it, ModelCall mems m1] @ backward_events a l
                           @ [OptimizerStep] @ (if ovf then [] else [LrSchedulerStep])) st)"
proof -
  note s1 = forward_step_Inr_state[OF assms(2)]
  let ?st3 = "emits fw (backward_events a l @ [step_event a]) st1"
  let ?ovf = "fp16 a \<and> overflow fw (world ?st3)"
  have "train_step fw a it mems st =
      Some (Inr (fst (backward_step fw a l st1), if ?ovf then 1 else 0, m1),
            if ?ovf then ?st3 else emit fw LrSchedulerStep ?st3)"
    using assms by (subst train_step_unfold) (simp add: Let_def)
  also have "(if ?ovf then ?st3 else emit fw LrSchedulerStep ?st3) =
       emits fw ([FetchBatch it, ModelCall mems m1] @ backward_events a l
                           @ [OptimizerStep] @ (if ?ovf then [] else [LrSchedulerStep])) st"
    using assms(1) s1 by (simp add: step_event_def)
  finally show ?thesis by blast
qed

lemma train_body_total:
  assumes nd: "\<not> deepspeed a" and fnr: "forward_never_raises fw a"
    and log: "log_interval a \<noteq> 0"
    and ex: "\<not> interval_hits (exit_interval a) (i + 1)"
    and ev: "do_valid a \<longrightarrow> eval_iters a \<noteq> 0"
  shows "\<exists>x new. train_body fw a i tot sk flag mems st = Some (Inr x, emits fw new st)
           \<and> count_list new OptimizerStep = 1"
proof -
  obtain l m1 st1 where f: "forward_step fw a TrainData mems st = (Inr (l, m1), st1)"
    using fnr by (rule forward_never_raisesD)
  from train_step_no_deepspeed[OF nd f] obtain lr ski ovf where
    ts: "train_step fw a TrainData mems st =
           Some (Inr (lr, ski, m1),
                 emits fw ([FetchBatch TrainData, ModelCall mems m1] @ backward_events a l
                           @ [OptimizerStep] @ (if ovf then [] else [LrSchedulerStep])) st)"
    by blast
  let ?pre = "[FetchBatch TrainData, ModelCall mems m1] @ backward_events a l
                           @ [OptimizerStep] @ (if ovf then [] else [LrSchedulerStep])"
  let ?ls = "log_save_events a flag (i + 1) (scalar_add tot lr)"
  let ?st3 = "emits fw ?ls (emits fw ?pre st)"
  note body = train_body_unfold[OF ts log, of i tot sk flag]
  have c: "count_list ?pre OptimizerStep = 1" by simp
  show ?thesis
  proof (cases "interval_hits (eval_interval a) (i + 1) \<and> do_valid a")
    case True
    with ev have "eval_iters a \<noteq> 0" by simp
    from evaluate_and_print_results_total[OF fnr _ this, of False ValData ?st3]
    obtain x se where e: "evaluate_and_print_results fw a ValData False ?st3 = (Inr x, se)"
      by auto
    from evaluate_and_print_results_events[OF e] obtain evs where evs:
      "se = emits fw evs ?st3" "count_list evs OptimizerStep = 0" by blast
    from body True e ex
    obtain y where y: "train_body fw a i tot sk flag mems st = Some (Inr y, se)" by auto
    have "se = emits fw (?pre @ ?ls @ evs) st" using evs(1) by simp
    with y have "train_body fw a i tot sk flag mems st
        = Some (Inr y, emits fw (?pre @ ?ls @ evs) st)" by simp
    moreover have "count_list (?pre @ ?ls @ evs) OptimizerStep = 1" using evs(2) by simp
    ultimately show ?thesis by (intro exI[of _ y] exI[of _ "?pre @ ?ls @ evs"]) simp
  next
    case False
    from body False ex
    obtain y where y: "train_body fw a i tot sk flag mems st = Some (Inr y, ?st3)" by auto
    have "?st3 = emits fw (?pre @ ?ls) st" by simp
    with y have "train_body fw a i tot sk flag mems st = Some (Inr y, emits fw (?pre @ ?ls) st)"
      by simp
    moreover have "count_list (?pre @ ?ls) OptimizerStep = 1" by simp
    ultimately show ?thesis by (intro exI[of _ y] exI[of _ "?pre @ ?ls"]) simp
  qed
qed

lemma train_loop_total:
  assumes nd: "\<not> deepspeed a" and fnr: "forward_never_raises fw a"
    and log: "log_interval a \<noteq> 0"
    and ex: "\<forall>j. \<not> interval_hits (exit_interval a) j"
    and ev: "do_valid a \<longrightarrow> eval_iters a \<noteq> 0"
  shows "\<exists>skf new. train_loop fw a i tot sk flag mems st
             = Some (Inr (max i (train_iters a), skf), emits fw new st)
           \<and> count_list new OptimizerStep = nat (train_iters a - i)"
proof (induction "nat (train_iters a - i)" arbitrary: i tot sk flag mems st)
  case 0
  then have n: "\<not> i < train_iters a" by simp
  then have "train_loop fw a i tot sk flag mems st = Some (Inr (max i (train_iters a), sk), emits fw [] st)"
    by (simp add: train_loop_done max_def)
  moreover have "count_list [] OptimizerStep = nat (train_iters a - i)" using n by simp
  ultimately show ?case by blast
next
  case (Suc n)
  then have lt: "i < train_iters a" by simp
  from ex have ex1: "\<not> interval_hits (exit_interval a) (i + 1)" by simp
  from train_body_total[OF nd fnr log ex1 ev, of tot sk flag mems st]
  obtain x pre where b: "train_body fw a i tot sk flag mems st = Some (Inr x, emits fw pre st)"
    and c: "count_list pre OptimizerStep = 1" by blast
  obtain tot' sk' flag' m' where x: "x = (tot', sk', flag', m')" by (cases x)
  have n: "n = nat (train_iters a - (i + 1))" using Suc(2) by simp
  from Suc(1)[OF n, of tot' sk' flag' m' "emits fw pre st"] obtain skf new where
    r: "train_loop fw a (i + 1) tot' sk' flag' m' (emits fw pre st)
          = Some (Inr (max (i + 1) (train_iters a), skf), emits fw new (emits fw pre st))"
    and cn: "count_list new OptimizerStep = nat (train_iters a - (i + 1))" by blast
  have "train_loop fw a i tot sk flag mems st
          = Some (Inr (max i (train_iters a), skf), emits fw (pre @ new) st)"
    using train_loop_step[OF lt, of fw tot sk flag mems st] b x r lt by (simp add: max_def)
  moreover have "count_list (pre @ new) OptimizerStep = nat (train_iters a - i)"
    using c cn lt by (simp add: nat_diff_distrib)
  ultimately show ?case by blast
qed

lemma fold_effect_emits: "fold (effect fw) es (world st) = world (emits fw es st)"
  by (simp add: world_emits)

lemma backward_events_no_lr [simp]: "LrSchedulerStep \<notin> set (backward_events a l)"
  by (simp add: backward_events_def)

lemma train_step_lr:
  assumes "train_step fw a it mems st = Some (r, st')"
  shows "\<forall>l sk m'. r = Inr (l, sk, m') \<longrightarrow>
           (\<exists>pre. st' = emits fw (pre @ [step_event a]
                      @ (if fp16 a \<and> overflow fw (world (emits fw (pre @ [step_event a]) st))
                         then [] else [LrSchedulerStep])) st
                \<and> LrSchedulerStep \<notin> set pre
                \<and> sk = (if fp16 a \<and> overflow fw (world (emits fw (pre @ [step_event a]) st))
                        then 1 else 0))"
  using assms
proof (induction rule: train_step_induct)
  case (Raise mems st e st1)
  show ?case by simp
next
  case (Final mems st l m1 st1 st3 ovf)
  note s1 = forward_step_Inr_state[OF Final(1)]
  let ?pre = "[FetchBatch it, ModelCall mems m1] @ backward_events a l"
  have w: "st3 = emits fw (?pre @ [step_event a]) st" using Final(3) s1 by simp
  have "(if ovf then st3 else emit fw LrSchedulerStep st3) =
        emits fw (?pre @ [step_event a] @ (if ovf then [] else [LrSchedulerStep])) st"
    using w by simp
  moreover have "LrSchedulerStep \<notin> set ?pre" by simp
  moreover have "ovf = (fp16 a \<and> overflow fw (world (emits fw (?pre @ [step_event a]) st)))"
    using Final(4) w by simp
  ultimately show ?case by (intro allI impI exI[of _ ?pre]) auto
next
  case (Again mems st l m1 st1 r st')
  note s1 = forward_step_Inr_state[OF Again(1)]
  let ?p0 = "[FetchBatch it, ModelCall mems m1] @ backward_events a l @ [ModelStep]"
  have s0: "emits fw (backward_events a l @ [ModelStep]) st1 = emits fw ?p0 st"
    using s1 by simp
  show ?case
  proof (intro allI impI)
    fix lr sk m' assume "r = Inr (lr, sk, m')"
    with Again(4)[unfolded s0] obtain pre where pre:
      "st' = emits fw (pre @ [step_event a]
                      @ (if fp16 a \<and> overflow fw (world (emits fw (pre @ [step_event a]) (emits fw ?p0 st)))
                         then [] else [LrSchedulerStep])) (emits fw ?p0 st)"
      "LrSchedulerStep \<notin> set pre"
      "sk = (if fp16 a \<and> overflow fw (world (emits fw (pre @ [step_event a]) (emits fw ?p0 st)))
                        then 1 else 0)"
      by blast
    have e: "emits fw (pre @ [step_event a]) (emits fw ?p0 st) = emits fw ((?p0 @ pre) @ [step_event a]) st"
      by simp
    show "\<exists>pre. st' = emits fw (pre @ [step_event a]
                      @ (if fp16 a \<and> overflow fw (world (emits fw (pre @ [step_event a]) st))
                         then [] else [LrSchedulerStep])) st
                \<and> LrSchedulerStep \<notin> set pre
                \<and> sk = (if fp16 a \<and> overflow fw (world (emits fw (pre @ [step_event a]) st))
                        then 1 else 0)"
      apply (rule exI[of _ "?p0 @ pre"])
      using pre by simp
  qed
qed

lemma train_body_after_step:
  assumes ts: "train_step fw a TrainData mems st = Some (Inr (l, ski, m'), st1)"
    and log: "log_interval a \<noteq> 0"
    and tb: "train_body fw a i tot sk flag mems st = Some (r, st')"
  shows "\<exists>post. st' = emits fw post st1
           \<and> filter is_save post = (if save_due a (i + 1) then [SaveCheckpoint (i + 1)] else [])"
proof -
  let ?ls = "log_save_events a flag (i + 1) (scalar_add tot l)"
  let ?st3 = "emits fw ?ls st1"
  note body = train_body_unfold[OF ts log, of i tot sk flag]
  show ?thesis
  proof (cases "interval_hits (eval_interval a) (i + 1) \<and> do_valid a")
    case True
    obtain re se where e: "evaluate_and_print_results fw a ValData False ?st3 = (re, se)"
      by (cases "evaluate_and_print_results fw a ValData False ?st3")
    from evaluate_and_print_results_events[OF e] obtain ev where ev:
      "se = emits fw ev ?st3" "filter is_save ev = []" by blast
    from tb body True e have "st' = se \<or> st' = emit fw Barrier se"
      by (cases re) (auto split: if_splits)
    then show ?thesis
    proof
      assume "st' = se"
      with ev show ?thesis by (intro exI[of _ "?ls @ ev"]) simp
    next
      assume "st' = emit fw Barrier se"
      with ev show ?thesis by (intro exI[of _ "?ls @ ev @ [Barrier]"]) simp
    qed
  next
    case False
    from tb body False have "st' = ?st3 \<or> st' = emit fw Barrier ?st3"
      by (auto split: if_splits)
    then show ?thesis
    proof
      assume "st' = ?st3"
      then show ?thesis by (intro exI[of _ ?ls]) simp
    next
      assume "st' = emit fw Barrier ?st3"
      then show ?thesis by (intro exI[of _ "?ls @ [Barrier]"]) simp
    qed
  qed
qed

lemma main_training_after_train:
  assumes "0 < train_iters a" "do_train a"
    and tr: "train fw a i st = Some (Inr (itf, skf), st1)"
    and m: "main_training fw a i st = Some (Inr (), st')"
  shows "\<exists>post. st' = emits fw post st1
           \<and> filter is_save post
               = (if truthy_str (save a) \<and> itf \<noteq> 0 then [SaveCheckpoint itf] else [])"
proof -
  let ?sv = "if truthy_str (save a) \<and> itf \<noteq> 0 then [SaveCheckpoint itf] else []"
  obtain rv sv where v: "(if train_iters a > 0 \<and> do_valid a
                 then evaluate_and_print_results fw a ValData False st1
                 else (Inr None, st1)) = (rv, sv)"
    by (cases "if train_iters a > 0 \<and> do_valid a
                 then evaluate_and_print_results fw a ValData False st1
                 else (Inr None, st1)")
  have "\<exists>ev. sv = emits fw ev st1 \<and> filter is_save ev = []"
  proof (cases "train_iters a > 0 \<and> do_valid a")
    case True
    with v have "evaluate_and_print_results fw a ValData False st1 = (rv, sv)" by simp
    from evaluate_and_print_results_events[OF this] show ?thesis by blast
  next
    case False
    with v have "sv = st1" by simp
    then show ?thesis by (intro exI[of _ "[]"]) simp
  qed
  then obtain ev where ev: "sv = emits fw ev st1" "filter is_save ev = []" by blast
  from m assms(1,2) tr v obtain z where rv: "rv = Inr z"
    by (cases rv) (auto simp: main_training_def Let_def)
  let ?st3 = "emits fw ?sv sv"
  have m': "(if do_test a then
               (case evaluate_and_print_results fw a TestData True ?st3 of
                  (Inl e, st4) \<Rightarrow> Some (Inl e, st4)
                | (Inr _, st4) \<Rightarrow> Some (Inr (), st4))
             else Some (Inr (), ?st3)) = Some (Inr (), st')"
    using m assms(1,2) tr v rv by (auto simp: main_training_def Let_def)
  show ?thesis
  proof (cases "do_test a")
    case True
    obtain rt stt where t: "evaluate_and_print_results fw a TestData True ?st3 = (rt, stt)"
      by (cases "evaluate_and_print_results fw a TestData True ?st3")
    from evaluate_and_print_results_events[OF t] obtain et where et:
      "stt = emits fw et ?st3" "filter is_save et = []" by blast
    from m' True t have "st' = stt" by (cases rt) auto
    with et ev show ?thesis by (intro exI[of _ "ev @ ?sv @ et"]) simp
  next
    case False
    with m' have "st' = ?st3" by simp
    with ev show ?thesis by (intro exI[of _ "ev @ ?sv"]) simp
  qed
qed

lemma main_training_without_train:
  assumes "\<not> (0 < train_iters a \<and> do_train a)"
    and m: "main_training fw a i st = Some (r, st')"
  shows "\<exists>new. st' = emits fw new st \<and> filter is_save new = []"
proof -
  obtain rv sv where v: "(if train_iters a > 0 \<and> do_valid a
                 then evaluate_and_print_results fw a ValData False st
                 else (Inr None, st)) = (rv, sv)"
    by (cases "if train_iters a > 0 \<and> do_valid a
                 then evaluate_and_print_results fw a ValData False st
                 else (Inr None, st)")
  have "\<exists>ev. sv = emits fw ev st \<and> filter is_save ev = []"
  proof (cases "train_iters a > 0 \<and> do_valid a")
    case True
    with v have "evaluate_and_print_results fw a ValData False st = (rv, sv)" by simp
    from evaluate_and_print_results_events[OF this] show ?thesis by blast
  next
    case False
    with v have "sv = st" by simp
    then show ?thesis by (intro exI[of _ "[]"]) simp
  qed
  then obtain ev where ev: "sv = emits fw ev st" "filter is_save ev = []" by blast
  show ?thesis
  proof (cases rv)
    case (Inl e)
    with m assms(1) v have "st' = sv" by (auto simp: main_training_def Let_def split: if_splits)
    with ev show ?thesis by blast
  next
    case (Inr z)
    show ?thesis
    proof (cases "do_test a")
      case True
      obtain rt stt where t: "evaluate_and_print_results fw a TestData True sv = (rt, stt)"
        by (cases "evaluate_and_print_results fw a TestData True sv")
      from evaluate_and_print_results_events[OF t] obtain et where et:
        "stt = emits fw et sv" "filter is_save et = []" by blast
      from m assms(1) v Inr True t have "st' = stt"
        by (cases rt) (auto simp: main_training_def Let_def split: if_splits)
      with et ev show ?thesis by (intro exI[of _ "ev @ et"]) simp
    next
      case False
      with m assms(1) v Inr have "st' = sv"
        by (auto simp: main_training_def Let_def split: if_splits)
      with ev show ?thesis by blast
    qed
  qed
qed

lemma save_due_fun:
  "save_due a = (\<lambda>j. truthy_str (save a) \<and> interval_hits (save_interval a) j)"
  by (rule ext) (simp add: save_due_def)

lemma same_shape_lengths:
  assumes "same_shape xs ys"
  shows "length xs = length ys" and "b < length ys \<Longrightarrow> length (xs ! b) = length (ys ! b)"
proof -
  from assms have m: "map length xs = map length ys" by (simp add: same_shape_def)
  then show l: "length xs = length ys" by (metis length_map)
  assume "b < length ys"
  with m l show "length (xs ! b) = length (ys ! b)" by (metis nth_map)
qed

lemma zero_at_eod_nth:
  assumes "same_shape lm data" "b < length data" "j < length (data ! b)"
  shows "zero_at_eod eod data lm ! b ! j = (if data ! b ! j = eod then 0 else lm ! b ! j)"
  using assms same_shape_lengths[OF assms(1)]
  by (simp add: zero_at_eod_def)

lemma get_masks_loss_mask:
  assumes "get_masks_and_position_ids data eod rp ra lmo amo False ml = Inr (am, lm, pos)"
  shows "same_shape (case lmo of None \<Rightarrow> map (\<lambda>row. replicate (length row) 1) data | Some l \<Rightarrow> l) data
       \<and> lm = zero_at_eod eod data
               (case lmo of None \<Rightarrow> map (\<lambda>row. replicate (length row) 1) data | Some l \<Rightarrow> l)"
  using assms
  by (auto simp: get_masks_and_position_ids_def Let_def split: sum.splits if_splits prod.splits)

lemma sum_list_pos_of_nonneg:
  fixes xs :: "real list"
  assumes "\<forall>x\<in>set xs. 0 \<le> x" "\<exists>x\<in>set xs. x \<noteq> 0"
  shows "0 < sum_list xs"
proof -
  have "0 \<le> sum_list xs" using assms(1) by (simp add: sum_list_nonneg)
  moreover have "sum_list xs \<noteq> 0" using assms by (simp add: sum_list_nonneg_eq_0_iff)
  ultimately show ?thesis by simp
qed

lemma forward_step_loss:
  assumes gb: "get_batch fw a it st = (Inr (tokens, labels, lm, am, pos), st1)"
    and f: "forward_step fw a it mems st = (Inr (loss, mems'), st')"
  shows "\<exists>weighted. loss = tensor_div (sum_list weighted) (sum_list (concat lm))"
  using f gb by (auto simp: forward_step_def Let_def split: prod.splits sum.splits)





text \<open>When no forward step raises, \<open>evaluate\<close> returns a loss.\<close>

lemma evaluate_total:
  assumes "forward_never_raises fw a" "\<not> (verbose \<and> log_interval a = 0)" "eval_iters a \<noteq> 0"
  shows "\<exists>x st'. evaluate fw a it verbose st = (Inr x, st')"
proof -
  from evaluate_loop_total[OF assms(1,2)] obtain x sl where
    "evaluate_loop fw a it verbose 0 (Some 0) [] (emit fw ModelEval st) = (Inr x, sl)" by blast
  with assms(3) show ?thesis by (simp add: evaluate_def Let_def)
qed
section \<open>The program on the small framework\<close>

lemma example_get_masks:
  "get_masks_and_position_ids [[1, 2]] 0 False False (Some [[1, 1]]) None False (Some 0)
     = Inr ([[[[1, 0], [1, 1]]]], [[1, 1]], [[0, 1]])"
  by (simp add: get_masks_and_position_ids_def attention_mask_lower_triangular_def
      seq_length_of_def tril_def torch_ones3_def torch_ones2_def unsqueeze1_def
      same_shape_def zero_at_eod_def numeral_eq_Suc upt_rec)

lemma example_forward_step:
  "forward_step example_framework example_args it mems st =
     (Inr (Some 1, [Suc (world st)]),
      emits example_framework [FetchBatch it, ModelCall mems [Suc (world st)]] st)"
  by (simp add: forward_step_def get_batch_def Let_def example_framework_def example_args_def
      to_float_def example_get_masks tensor_mul_def tensor_div_def emit_def)

lemma example_forward_never_raises: "forward_never_raises example_framework example_args"
  unfolding forward_never_raises_def using example_forward_step by blast

lemma example_backward_step:
  "backward_step example_framework example_args (Some 1) st =
     (Some 2, emits example_framework
        [ZeroGrad, OptimizerBackward (Some 1), AllReduceLoss, UpdateMasterGrads, ClipMasterGrads 1] st)"
  by (simp add: backward_step_def Let_def example_framework_def example_args_def emit_def
      all_reduce_def scalar_sum_def scalar_add_def scalar_div_int_def tensor_div_def
      USE_TORCH_DDP_def)

lemma example_train_step:
  "train_step example_framework example_args it mems st =
     Some (Inr (Some 2, 0, [Suc (world st)]),
           emits example_framework
             [FetchBatch it, ModelCall mems [Suc (world st)], ZeroGrad, OptimizerBackward (Some 1),
              AllReduceLoss, UpdateMasterGrads, ClipMasterGrads 1, OptimizerStep, LrSchedulerStep] st)"
  apply (subst train_step.simps)
  apply (simp add: example_forward_step example_backward_step)
  apply (simp add: example_framework_def example_args_def emit_def)
  done

lemma example_train_body:
  "train_body example_framework example_args i tot sk flag mems st =
     Some (Inr (Some 0, sk, False, [Suc (world st)]),
           emits example_framework
             ([FetchBatch TrainData, ModelCall mems [Suc (world st)], ZeroGrad,
               OptimizerBackward (Some 1), AllReduceLoss, UpdateMasterGrads, ClipMasterGrads 1,
               OptimizerStep, LrSchedulerStep]
              @ log_save_events example_args flag (i + 1) (scalar_add tot (Some 2))) st)"
proof -
  have l: "log_interval example_args \<noteq> 0" by (simp add: example_args_def)
  show ?thesis
    by (subst train_body_unfold[OF example_train_step l])
       (simp add: interval_hits_def example_args_def)
qed

lemma example_log_save_events:
  "log_save_events example_args True 1 (Some 2) = [ReportIterationMetrics 1 (Some 2), ReportMemory 1]"
  "log_save_events example_args False 2 (Some 2) = [ReportIterationMetrics 2 (Some 2), SaveCheckpoint 2]"
  by (simp_all add: log_save_events_def save_due_def interval_hits_def truthy_str_def
      example_args_def scalar_div_int_def tensor_div_def)

lemma example_train_run:
  "train example_framework example_args 0 example_state =
     Some (Inr (2, 0),
           \<lparr>world = 23, trace = example_train_trace\<rparr>)"
proof -
  have t: "train_iters example_args = 2" by (simp add: example_args_def)
  have l0: "(0::int) < train_iters example_args" and l1: "(0::int) + 1 < train_iters example_args"
    and l2: "\<not> (0::int) + 1 + 1 < train_iters example_args" by (simp_all add: t)
  show ?thesis
    unfolding train_def
    apply (subst train_loop_step[OF l0])
    apply (simp only: example_train_body option.case prod.case sum.case)
    apply (subst train_loop_step[OF l1])
    apply (simp only: example_train_body option.case prod.case sum.case)
    apply (subst train_loop_done[OF l2])
    apply (simp add: scalar_add_def example_log_save_events)
    apply (simp add: example_state_def example_framework_def emit_def example_train_trace_def)
    done
qed

lemma example_main_run:
  "main_training example_framework example_args 0 example_state =
     Some (Inr (), \<lparr>world = 24, trace = example_train_trace @ [SaveCheckpoint 2]\<rparr>)"
  by (simp add: main_training_def example_train_run)
     (simp add: example_args_def truthy_str_def example_framework_def emit_def)

lemma example_get_batch:
  "get_batch example_framework example_args it example_state =
     (Inr ([[1, 2]], [[2, 3]], [[1, 1]], [[[[1, 0], [1, 1]]]], [[0, 1]]),
      emit example_framework (FetchBatch it) example_state)"
  by (simp add: get_batch_def Let_def example_framework_def example_args_def
      to_float_def example_get_masks)




text \<open>
  The two ways \<open>sample_sequence\<close> raises on a short context: an empty context fails in
  \<open>get_batch\<close>; a context shorter than the \<open>context_length\<close> passed leaves the slice
  \<open>tokens[:, index - 1: index]\<close> of the second pass empty.
\<close>

lemma example_sample_sequence_empty_context:
  "sample_sequence fw a [] context_length mems end_token st = (Inl RuntimeError, st)"
  by (simp add: sample_sequence_def generate_get_batch_def)

lemma example_generate_get_batch_one:
  "generate_get_batch example_args [7] = Inr ([[7]], [[[[1]]]], [[0]])"
  by (simp add: generate_get_batch_def get_masks_and_position_ids_def
      attention_mask_lower_triangular_def example_args_def
      seq_length_of_def tril_def torch_ones3_def torch_ones2_def unsqueeze1_def
      same_shape_def zero_at_eod_def numeral_eq_Suc upt_rec)

lemma example_sample_sequence_empty_slice:
  "sample_sequence example_framework example_args [7] 3 None None example_state =
     (Inl IndexError,
      \<lparr>world = 3, trace = [ModelCall [] [0], SampleToken 1, ModelCall [0] [2]]\<rparr>)"
proof -
  have o: "out_seq_length example_args = 5" "eod_token example_args = 0"
    "mem_length example_args = 0"
    by (simp_all add: example_args_def)
  have fw: "model_fn example_framework w t p m ms = ((), [w])"
    "sample_token example_framework w lg = int w"
    "model_parallel_rank example_framework w = 0"
    "effect example_framework e w = Suc w" for w t p m ms lg e
    by (simp_all add: example_framework_def)
  show ?thesis
    unfolding sample_sequence_def example_generate_get_batch_one
    apply (simp add: Let_def)
    apply (subst sample_loop.simps,
        simp add: o fw Let_def example_state_def emit_def model_input_row_def py_slice_def
          py_bound_def)
    apply (subst sample_loop.simps,
        simp add: o fw Let_def emit_def model_input_row_def py_slice_def py_bound_def)
    done
qed

text \<open>The runs under \<open>example_eval_args\<close>: validation inside training.\<close>

lemma example_eval_forward_step:
  "forward_step example_framework example_eval_args it mems st =
     (Inr (Some 1, [Suc (world st)]),
      emits example_framework [FetchBatch it, ModelCall mems [Suc (world st)]] st)"
  by (simp add: forward_step_def get_batch_def Let_def example_framework_def example_args_def
      example_eval_args_def to_float_def example_get_masks tensor_mul_def tensor_div_def emit_def)

lemma example_eval_forward_never_raises: "forward_never_raises example_framework example_eval_args"
  unfolding forward_never_raises_def using example_eval_forward_step by blast

lemma example_eval_evaluate:
  "evaluate example_framework example_eval_args it False st =
     (Inr (Some 2),
      emits example_framework
        [ModelEval, FetchBatch it, ModelCall [] [world st + 2], AllReduceLoss,
         FetchBatch it, ModelCall [world st + 2] [world st + 5], AllReduceLoss, ModelTrain] st)"
proof -
  have a: "eval_iters example_eval_args = 2" "\<not> deepspeed example_eval_args"
    "world_size example_eval_args = 2" "model_is_DDP example_eval_args"
    by (simp_all add: example_eval_args_def example_args_def model_is_DDP_def)
  have fw: "peer_losses example_framework w = [Some 3]" "effect example_framework e w = Suc w"
    for w e by (simp_all add: example_framework_def)
  have r: "scalar_div_int (all_reduce example_framework w (Some 1)) 2 = Some 2" for w
    by (simp add: all_reduce_def fw scalar_sum_def scalar_add_def scalar_div_int_def tensor_div_def)
  show ?thesis
    unfolding evaluate_def Let_def
    apply (subst evaluate_loop.simps)
    apply (simp add: a example_eval_forward_step Let_def r)
    apply (subst evaluate_loop.simps)
    apply (simp add: a example_eval_forward_step Let_def r fw)
    apply (subst evaluate_loop.simps)
    apply (simp add: a scalar_add_def scalar_div_int_def tensor_div_def numeral_eq_Suc)
    done
qed

lemma example_evaluate_run:
  "evaluate example_framework example_eval_args ValData False example_state =
     (Inr (Some 2), \<lparr>world = 8, trace = example_evaluate_trace\<rparr>)"
  by (simp add: example_eval_evaluate)
     (simp add: example_state_def example_framework_def emit_def example_evaluate_trace_def)


lemma example_eval_backward_step:
  "backward_step example_framework example_eval_args (Some 1) st =
     (Some 2, emits example_framework
        [ZeroGrad, OptimizerBackward (Some 1), AllReduceLoss, UpdateMasterGrads, ClipMasterGrads 1] st)"
  by (simp add: backward_step_def Let_def example_framework_def example_args_def
      example_eval_args_def emit_def
      all_reduce_def scalar_sum_def scalar_add_def scalar_div_int_def tensor_div_def
      USE_TORCH_DDP_def)

lemma example_eval_train_step:
  "train_step example_framework example_eval_args it mems st =
     Some (Inr (Some 2, 0, [Suc (world st)]),
           emits example_framework
             [FetchBatch it, ModelCall mems [Suc (world st)], ZeroGrad, OptimizerBackward (Some 1),
              AllReduceLoss, UpdateMasterGrads, ClipMasterGrads 1, OptimizerStep, LrSchedulerStep] st)"
  apply (subst train_step.simps)
  apply (simp add: example_eval_forward_step example_eval_backward_step)
  apply (simp add: example_framework_def example_args_def example_eval_args_def emit_def)
  done

lemma example_eval_train_body:
  "train_body example_framework example_eval_args i tot sk flag mems st =
     (let s3 = emits example_framework
             ([FetchBatch TrainData, ModelCall mems [Suc (world st)], ZeroGrad,
               OptimizerBackward (Some 1), AllReduceLoss, UpdateMasterGrads, ClipMasterGrads 1,
               OptimizerStep, LrSchedulerStep]
              @ log_save_events example_eval_args flag (i + 1) (scalar_add tot (Some 2))) st
      in Some (Inr (Some 0, sk, False, [Suc (world st)]),
               if (i + 1) mod 2 = 0
               then emits example_framework
                      [ModelEval, FetchBatch ValData, ModelCall [] [world s3 + 2], AllReduceLoss,
                       FetchBatch ValData, ModelCall [world s3 + 2] [world s3 + 5], AllReduceLoss,
                       ModelTrain, ReportEvaluateMetrics (Some 2)] s3
               else s3))"
proof -
  have l: "log_interval example_eval_args \<noteq> 0"
    by (simp add: example_eval_args_def example_args_def)
  have f: "eval_interval example_eval_args = Some 2" "do_valid example_eval_args"
    "exit_interval example_eval_args = None" "log_interval example_eval_args = 1"
    by (simp_all add: example_eval_args_def example_args_def)
  show ?thesis
    by (subst train_body_unfold[OF example_eval_train_step l])
       (simp add: interval_hits_def f evaluate_and_print_results_def example_eval_evaluate Let_def)
qed

lemma example_eval_log_save_events:
  "log_save_events example_eval_args True 1 (Some 2) = [ReportIterationMetrics 1 (Some 2), ReportMemory 1]"
  "log_save_events example_eval_args False 2 (Some 2) = [ReportIterationMetrics 2 (Some 2), SaveCheckpoint 2]"
  "log_save_events example_eval_args False 3 (Some 2) = [ReportIterationMetrics 3 (Some 2)]"
  by (simp_all add: log_save_events_def save_due_def interval_hits_def truthy_str_def
      example_args_def example_eval_args_def scalar_div_int_def tensor_div_def)

lemma example_eval_train_run:
  "train example_framework example_eval_args 0 example_state =
     Some (Inr (3, 0), \<lparr>world = 42, trace = example_eval_train_trace\<rparr>)"
proof -
  have t: "train_iters example_eval_args = 3"
    by (simp add: example_eval_args_def example_args_def)
  have l0: "(0::int) < train_iters example_eval_args"
    and l1: "(0::int) + 1 < train_iters example_eval_args"
    and l2: "(0::int) + 1 + 1 < train_iters example_eval_args"
    and l3: "\<not> (0::int) + 1 + 1 + 1 < train_iters example_eval_args" by (simp_all add: t)
  have fw: "effect example_framework e w = Suc w" for w e by (simp add: example_framework_def)
  show ?thesis
    unfolding train_def
    apply (subst train_loop_step[OF l0])
    apply (simp only: example_eval_train_body Let_def option.case prod.case sum.case)
    apply (subst train_loop_step[OF l1])
    apply (simp only: example_eval_train_body Let_def option.case prod.case sum.case)
    apply (subst train_loop_step[OF l2])
    apply (simp only: example_eval_train_body Let_def option.case prod.case sum.case)
    apply (subst train_loop_done[OF l3])
    apply (simp add: scalar_add_def example_eval_log_save_events)
    apply (simp add: example_state_def emit_def fw example_eval_train_trace_def numeral_eq_Suc)
    done
qed
section \<open>Claims about the training loop\<close>

text \<open>
  C1. Memories are carried forward across mini-batches. (a) The memories
  \<open>forward_step\<close> returns are exactly the outputs of its model call after the logits,
  and that call received the memories \<open>forward_step\<close> was given. (b) In every run of
  \<open>train\<close>, the first training model call receives the empty list and each later one
  receives, unchanged, the memories the one before returned; each evaluation inside
  starts again from the empty list. (c) \<open>evaluate\<close> starts from the empty list, threads
  the returned memories through its passes, and a run that returns made \<open>eval_iters\<close>
  model calls. (d) \<open>evaluate\<close> does return a loss whenever no forward step raises,
  \<open>eval_iters\<close> is not zero, and \<open>log_interval\<close> is not zero when \<open>verbose\<close> is set; these
  are the only three ways it can raise.
\<close>

theorem mems_carried_forward:
  "(\<forall>loss mems' st'. forward_step fw a it mems st = (Inr (loss, mems'), st') \<longrightarrow>
      (\<exists>tokens labels lm am pos st1.
          get_batch fw a it st = (Inr (tokens, labels, lm, am, pos), st1)
        \<and> mems' = snd (model_fn fw (world st1) tokens pos am mems)
        \<and> trace st' = trace st1 @ [ModelCall mems mems']))
   \<and> (\<forall>r st'. train fw a i st = Some (r, st') \<longrightarrow>
          (\<exists>new. trace st' = trace st @ new \<and> (\<forall>ev. mems_threaded [] ev new)))
   \<and> (\<forall>r st'. evaluate fw a it verbose st = (r, st') \<longrightarrow>
          (\<exists>new. trace st' = trace st @ new \<and> (\<forall>tm ev. mems_threaded tm ev new)
             \<and> (\<forall>x. r = Inr x \<longrightarrow> length (filter is_model_call new) = nat (eval_iters a))))
   \<and> (forward_never_raises fw a \<and> \<not> (verbose \<and> log_interval a = 0) \<and> eval_iters a \<noteq> 0 \<longrightarrow>
          (\<exists>x st'. evaluate fw a it verbose st = (Inr x, st')))"
proof (intro conjI allI impI)
  fix loss mems' st'
  assume f: "forward_step fw a it mems st = (Inr (loss, mems'), st')"
  obtain rb st1 where gb: "get_batch fw a it st = (rb, st1)" by (cases "get_batch fw a it st")
  from f gb obtain tokens labels lm am pos where rb: "rb = Inr (tokens, labels, lm, am, pos)"
    by (cases rb) (auto simp: forward_step_def)
  from f gb rb have "mems' = snd (model_fn fw (world st1) tokens pos am mems)
        \<and> trace st' = trace st1 @ [ModelCall mems mems']"
    by (auto simp: forward_step_def Let_def split: prod.splits sum.splits)
  with gb rb show "\<exists>tokens labels lm am pos st1.
          get_batch fw a it st = (Inr (tokens, labels, lm, am, pos), st1)
        \<and> mems' = snd (model_fn fw (world st1) tokens pos am mems)
        \<and> trace st' = trace st1 @ [ModelCall mems mems']" by blast
next
  fix r st' assume "train fw a i st = Some (r, st')"
  from train_events[OF this] obtain new where "st' = emits fw new st" "\<forall>ev. mems_threaded [] ev new"
    by blast
  then show "\<exists>new. trace st' = trace st @ new \<and> (\<forall>ev. mems_threaded [] ev new)"
    by (intro exI[of _ new]) simp
next
  fix r st' assume "evaluate fw a it verbose st = (r, st')"
  from evaluate_events[OF this] obtain new where "st' = emits fw new st"
    "\<forall>tm ev. mems_threaded tm ev new"
    "\<forall>x. r = Inr x \<longrightarrow> length (filter is_model_call new) = nat (eval_iters a)"
    by blast
  then show "\<exists>new. trace st' = trace st @ new \<and> (\<forall>tm ev. mems_threaded tm ev new)
             \<and> (\<forall>x. r = Inr x \<longrightarrow> length (filter is_model_call new) = nat (eval_iters a))"
    by (intro exI[of _ new]) simp
next
  assume "forward_never_raises fw a \<and> \<not> (verbose \<and> log_interval a = 0) \<and> eval_iters a \<noteq> 0"
  then show "\<exists>x st'. evaluate fw a it verbose st = (Inr x, st')"
    by (intro evaluate_total) simp_all
qed

text \<open>
  The theorem at a run of \<open>evaluate\<close> with two passes and at a run of \<open>train\<close> with three
  iterations and that evaluation after the second: the evaluation calls the model with
  \<open>[]\<close> and then with \<open>[2]\<close>, what its first call returned; inside \<open>train\<close> the evaluation
  calls it with \<open>[]\<close> and \<open>[25]\<close>, and the third training call receives \<open>[13]\<close>, what the
  second training call returned before the evaluation.
\<close>

theorem mems_carried_forward_witness:
  "forward_never_raises example_framework example_eval_args
   \<and> eval_iters example_eval_args = 2
   \<and> evaluate example_framework example_eval_args ValData False example_state
       = (Inr (Some 2), \<lparr>world = 8, trace = example_evaluate_trace\<rparr>)
   \<and> filter is_model_call example_evaluate_trace = [ModelCall [] [2], ModelCall [2] [5]]
   \<and> mems_threaded [] None example_evaluate_trace
   \<and> length (filter is_model_call example_evaluate_trace) = nat (eval_iters example_eval_args)
   \<and> train example_framework example_eval_args 0 example_state
       = Some (Inr (3, 0), \<lparr>world = 42, trace = example_eval_train_trace\<rparr>)
   \<and> filter is_model_call example_eval_train_trace
       = [ModelCall [] [2], ModelCall [2] [13], ModelCall [] [25], ModelCall [25] [28],
          ModelCall [13] [33]]
   \<and> mems_threaded [] None example_eval_train_trace
   \<and> (\<exists>loss st'.
         forward_step example_framework example_eval_args TrainData [2] example_state
           = (Inr (loss, [1]), st')
       \<and> snd (model_fn example_framework 1 [[1, 2]] [[0, 1]] [[[[1, 0], [1, 1]]]] [2]) = [1])"
proof -
  note t = mems_carried_forward[of example_framework example_eval_args ValData "[2]"
      example_state 0 False]
  note t2 = t[THEN conjunct2, THEN conjunct1]
  note t3 = t[THEN conjunct2, THEN conjunct2, THEN conjunct1]
  note t4 = t[THEN conjunct2, THEN conjunct2, THEN conjunct2]
  have h: "forward_never_raises example_framework example_eval_args"
    by (rule example_eval_forward_never_raises)
  have e2: "eval_iters example_eval_args = 2"
    by (simp add: example_eval_args_def example_args_def)
  have "\<exists>x se. evaluate example_framework example_eval_args ValData False example_state = (Inr x, se)"
    by (rule t4[rule_format]) (simp add: h e2)
  then obtain x se where
    ret: "evaluate example_framework example_eval_args ValData False example_state = (Inr x, se)"
    by blast
  from t3[rule_format, OF ret] obtain enew where en: "trace se = trace example_state @ enew"
    "\<forall>tm ev. mems_threaded tm ev enew"
    "\<forall>y. Inr x = Inr y \<longrightarrow> length (filter is_model_call enew) = nat (eval_iters example_eval_args)"
    by blast
  from ret example_evaluate_run have se: "se = \<lparr>world = 8, trace = example_evaluate_trace\<rparr>"
    by simp
  from en(1) se have eq: "enew = example_evaluate_trace" by (simp add: example_state_def)
  from en(2) eq have ev1: "mems_threaded [] None example_evaluate_trace" by simp
  from en(3) eq have ev2:
    "length (filter is_model_call example_evaluate_trace) = nat (eval_iters example_eval_args)"
    by simp
  have ec: "filter is_model_call example_evaluate_trace = [ModelCall [] [2], ModelCall [2] [5]]"
    by (simp add: example_evaluate_trace_def)
  from t2[rule_format, OF example_eval_train_run]
  obtain new where n:
    "trace \<lparr>world = 42::nat, trace = example_eval_train_trace\<rparr> = trace example_state @ new"
    "\<forall>ev. mems_threaded [] ev new" by blast
  from n(1) have "new = example_eval_train_trace" by (simp add: example_state_def)
  with n(2) have a: "mems_threaded [] None example_eval_train_trace" by simp
  have b: "filter is_model_call example_eval_train_trace
       = [ModelCall [] [2], ModelCall [2] [13], ModelCall [] [25], ModelCall [25] [28],
          ModelCall [13] [33]]"
    by (simp add: example_eval_train_trace_def)
  have c1: "forward_step example_framework example_eval_args TrainData [2] example_state
           = (Inr (Some 1, [1]),
              emits example_framework [FetchBatch TrainData, ModelCall [2] [1]] example_state)"
    by (simp add: example_eval_forward_step) (simp add: example_state_def)
  have c2: "snd (model_fn example_framework 1 [[1, 2]] [[0, 1]] [[[[1, 0], [1, 1]]]] [2]) = [1]"
    by (simp add: example_framework_def)
  from c1 c2 have c: "\<exists>loss st'.
         forward_step example_framework example_eval_args TrainData [2] example_state
           = (Inr (loss, [1]), st')
       \<and> snd (model_fn example_framework 1 [[1, 2]] [[0, 1]] [[[[1, 0], [1, 1]]]] [2]) = [1]"
    by (intro exI conjI)
  from h e2 example_evaluate_run ec ev1 ev2 example_eval_train_run b a c show ?thesis
    by (intro conjI)
qed

text \<open>
  C3. (a) For every call of \<open>train_step\<close> that completes a parameter update, the
  learning-rate scheduler is stepped, right after the completing
  \<open>optimizer.step()\<close> (\<open>model.step()\<close> with deepspeed) and nowhere else in the call,
  exactly when not (\<open>args.fp16\<close> and the optimizer reports overflow then); the call
  returns \<open>skipped_iter = 1\<close> when it is not stepped and 0 otherwise. (b) \<open>train\<close>
  accumulates these: the \<open>skipped_iters\<close> it returns is the number of its steps minus
  the number of scheduler steps.
\<close>

theorem lr_scheduler_skipped_on_overflow:
  "(\<forall>loss skipped_iter mems' st'.
       train_step fw a it mems st = Some (Inr (loss, skipped_iter, mems'), st') \<longrightarrow>
       (\<exists>pre. trace st' = trace st @ pre @ [step_event a]
                 @ (if fp16 a \<and> overflow fw (fold (effect fw) (pre @ [step_event a]) (world st))
                    then [] else [LrSchedulerStep])
            \<and> LrSchedulerStep \<notin> set pre
            \<and> skipped_iter =
                (if fp16 a \<and> overflow fw (fold (effect fw) (pre @ [step_event a]) (world st))
                 then 1 else 0)))
   \<and> (\<forall>iteration skipped_iters st'.
         train fw a i st = Some (Inr (iteration, skipped_iters), st') \<longrightarrow>
         (\<exists>new. trace st' = trace st @ new
            \<and> skipped_iters = (iteration - i) - int (count_list new LrSchedulerStep)))"
proof (intro conjI allI impI)
  fix loss skipped_iter mems' st'
  assume "train_step fw a it mems st = Some (Inr (loss, skipped_iter, mems'), st')"
  from train_step_lr[OF this] obtain pre where pre:
    "st' = emits fw (pre @ [step_event a]
                      @ (if fp16 a \<and> overflow fw (world (emits fw (pre @ [step_event a]) st))
                         then [] else [LrSchedulerStep])) st"
    "LrSchedulerStep \<notin> set pre"
    "skipped_iter = (if fp16 a \<and> overflow fw (world (emits fw (pre @ [step_event a]) st))
                        then 1 else 0)"
    by blast
  have w: "world (emits fw (pre @ [step_event a]) st) = fold (effect fw) (pre @ [step_event a]) (world st)"
    by (rule world_emits)
  from pre(1) have "trace st' = trace st @ pre @ [step_event a]
                 @ (if fp16 a \<and> overflow fw (fold (effect fw) (pre @ [step_event a]) (world st))
                    then [] else [LrSchedulerStep])"
    unfolding w by (simp only: trace_emits)
  with pre(2,3) show "\<exists>pre. trace st' = trace st @ pre @ [step_event a]
                 @ (if fp16 a \<and> overflow fw (fold (effect fw) (pre @ [step_event a]) (world st))
                    then [] else [LrSchedulerStep])
            \<and> LrSchedulerStep \<notin> set pre
            \<and> skipped_iter =
                (if fp16 a \<and> overflow fw (fold (effect fw) (pre @ [step_event a]) (world st))
                 then 1 else 0)"
    unfolding w by blast
next
  fix iteration skipped_iters st'
  assume "train fw a i st = Some (Inr (iteration, skipped_iters), st')"
  from train_events[OF this] obtain new where "st' = emits fw new st"
    "skipped_iters + int (count_list new LrSchedulerStep) = iteration - i" by blast
  then show "\<exists>new. trace st' = trace st @ new
            \<and> skipped_iters = (iteration - i) - int (count_list new LrSchedulerStep)"
    by (intro exI[of _ new]) simp
qed

theorem lr_scheduler_skipped_on_overflow_witness:
  "train_step example_framework example_args TrainData [] example_state =
     Some (Inr (Some 2, 0, [1]),
           emits example_framework
             [FetchBatch TrainData, ModelCall [] [1], ZeroGrad, OptimizerBackward (Some 1),
              AllReduceLoss, UpdateMasterGrads, ClipMasterGrads 1, OptimizerStep,
              LrSchedulerStep] example_state)
   \<and> train example_framework example_args 0 example_state
       = Some (Inr (2, 0), \<lparr>world = 23, trace = example_train_trace\<rparr>)
   \<and> (0::int) = (2 - 0) - int (count_list example_train_trace LrSchedulerStep)"
proof -
  note t = lr_scheduler_skipped_on_overflow[of example_framework example_args TrainData "[]"
      example_state 0]
  have ts: "train_step example_framework example_args TrainData [] example_state =
     Some (Inr (Some 2, 0, [1]),
           emits example_framework
             [FetchBatch TrainData, ModelCall [] [1], ZeroGrad, OptimizerBackward (Some 1),
              AllReduceLoss, UpdateMasterGrads, ClipMasterGrads 1, OptimizerStep,
              LrSchedulerStep] example_state)"
    by (simp add: example_train_step) (simp add: example_state_def)
  from t example_train_run
  obtain new where "trace \<lparr>world = 23::nat, trace = example_train_trace\<rparr> = trace example_state @ new"
    "(0::int) = (2 - 0) - int (count_list new LrSchedulerStep)" by blast
  then have b: "(0::int) = (2 - 0) - int (count_list example_train_trace LrSchedulerStep)"
    by (simp add: example_state_def)
  from ts b example_train_run show ?thesis by blast
qed

text \<open>
  C4. Without deepspeed, \<open>backward_step\<close> returns the loss summed by the all-reduce
  over all processes (the local loss and the peers' losses) and divided by
  \<open>args.world_size\<close>, which is the mean when the peers number \<open>world_size - 1\<close> and all
  losses are finite. The backward pass runs on the local, unreduced loss and before the
  all-reduce. With \<open>args.clip_grad > 0\<close> the gradients are clipped to \<open>args.clip_grad\<close>,
  after the update of the master gradients (which happens with fp16); otherwise they
  are not clipped.
\<close>

theorem backward_step_reduces_loss:
  assumes "\<not> deepspeed a"
  shows "fst (backward_step fw a lm_loss st) =
           scalar_div_int
             (scalar_sum (lm_loss # peer_losses fw
                (effect fw (if fp16 a then OptimizerBackward lm_loss else LossBackward lm_loss)
                   (effect fw ZeroGrad (world st)))))
             (world_size a)
       \<and> trace (snd (backward_step fw a lm_loss st)) =
           trace st
           @ [ZeroGrad, if fp16 a then OptimizerBackward lm_loss else LossBackward lm_loss,
              AllReduceLoss]
           @ (if fp16 a then [UpdateMasterGrads] else [])
           @ (if clip_grad a > 0
              then [if fp16 a then ClipMasterGrads (clip_grad a) else ClipGradNorm (clip_grad a)]
              else [])
       \<and> (\<forall>l ps. lm_loss = Some l
             \<and> peer_losses fw
                 (effect fw (if fp16 a then OptimizerBackward lm_loss else LossBackward lm_loss)
                    (effect fw ZeroGrad (world st))) = map Some ps
             \<and> world_size a = int (length ps) + 1
             \<longrightarrow> fst (backward_step fw a lm_loss st)
                  = Some ((l + sum_list ps) / (real (length ps) + 1)))"
proof -
  have r: "fst (backward_step fw a lm_loss st) =
           scalar_div_int
             (scalar_sum (lm_loss # peer_losses fw
                (effect fw (if fp16 a then OptimizerBackward lm_loss else LossBackward lm_loss)
                   (effect fw ZeroGrad (world st)))))
             (world_size a)"
    using assms by (simp add: backward_step_def Let_def all_reduce_def USE_TORCH_DDP_def)
  have t: "trace (snd (backward_step fw a lm_loss st)) =
           trace st
           @ [ZeroGrad, if fp16 a then OptimizerBackward lm_loss else LossBackward lm_loss,
              AllReduceLoss]
           @ (if fp16 a then [UpdateMasterGrads] else [])
           @ (if clip_grad a > 0
              then [if fp16 a then ClipMasterGrads (clip_grad a) else ClipGradNorm (clip_grad a)]
              else [])"
    using assms by (simp add: backward_step_def Let_def USE_TORCH_DDP_def)
  have m: "scalar_div_int (scalar_sum (Some l # map Some ps)) (int (length ps) + 1)
             = Some ((l + sum_list ps) / (real (length ps) + 1))" for l ps
  proof -
    have "scalar_sum (Some l # map Some ps) = Some (l + sum_list ps)"
      using scalar_sum_Some[of "l # ps"] by simp
    moreover have "real (length ps) + 1 \<noteq> 0" by (simp add: add_nonneg_eq_0_iff)
    ultimately show ?thesis by (simp add: scalar_div_int_def tensor_div_def)
  qed
  show ?thesis using r t m by auto
qed

theorem backward_step_reduces_loss_witness:
  "\<not> deepspeed example_args
   \<and> fst (backward_step example_framework example_args (Some 1) example_state) = Some 2
   \<and> trace (snd (backward_step example_framework example_args (Some 1) example_state)) =
       [ZeroGrad, OptimizerBackward (Some 1), AllReduceLoss, UpdateMasterGrads, ClipMasterGrads 1]"
proof -
  have h: "\<not> deepspeed example_args" by (simp add: example_args_def)
  have f: "fp16 example_args" and c: "clip_grad example_args = 1"
    and ws: "world_size example_args = int (length [3::real]) + 1"
    by (simp_all add: example_args_def)
  have p: "peer_losses example_framework w = map Some [3]" for w
    by (simp add: example_framework_def)
  have e: "trace example_state = []" by (simp add: example_state_def)
  note t = backward_step_reduces_loss[OF h, of example_framework "Some 1" example_state]
  from t have "trace (snd (backward_step example_framework example_args (Some 1) example_state)) =
       [ZeroGrad, OptimizerBackward (Some 1), AllReduceLoss, UpdateMasterGrads, ClipMasterGrads 1]"
    by (simp add: f c e)
  moreover from t have "Some (1::real) = Some 1
           \<and> peer_losses example_framework
               (effect example_framework
                  (if fp16 example_args then OptimizerBackward (Some 1) else LossBackward (Some 1))
                  (effect example_framework ZeroGrad (world example_state))) = map Some [3]
           \<and> world_size example_args = int (length [3::real]) + 1
           \<longrightarrow> fst (backward_step example_framework example_args (Some 1) example_state)
                = Some ((1 + sum_list [3]) / (real (length [3::real]) + 1))"
    by blast
  then have "fst (backward_step example_framework example_args (Some 1) example_state) = Some 2"
    using p ws by simp
  ultimately show ?thesis using h by blast
qed

text \<open>
  C5. (a) In a run of \<open>train\<close> that returns, the calls of \<open>save_checkpoint\<close> are, in
  order, those for the iteration numbers \<open>j\<close> reached (\<open>i < j \<le> iteration\<close>) at which
  \<open>args.save\<close> is set, \<open>args.save_interval\<close> is nonzero and \<open>j\<close> is a multiple of it.
  (b) In one pass of the loop that gets past the logging (the step returned and
  \<open>args.log_interval\<close> is not zero, which would raise there), also one that ends in
  \<open>exit()\<close> or in a failing evaluation, \<open>save_checkpoint\<close> is called after the step, once
  and for the new iteration number, exactly under that condition. (c) After a training
  that returned \<open>iteration\<close>, a run of \<open>main\<close> that comes to its end saves once more
  exactly when \<open>args.save\<close> is set and \<open>iteration\<close> is not zero; (d) when \<open>train\<close> is not
  called, \<open>main\<close> saves nothing.
\<close>

theorem checkpoint_schedule:
  "(\<forall>iteration skipped st'.
       train fw a i st = Some (Inr (iteration, skipped), st') \<longrightarrow>
       (\<exists>new. trace st' = trace st @ new
          \<and> filter is_save new =
              map SaveCheckpoint
                (filter (\<lambda>j. truthy_str (save a) \<and> interval_hits (save_interval a) j)
                   [i + 1..iteration])))
   \<and> (\<forall>l ski m' st1 r st'.
         train_step fw a TrainData mems st = Some (Inr (l, ski, m'), st1)
         \<and> log_interval a \<noteq> 0
         \<and> train_body fw a i tot sk flag mems st = Some (r, st') \<longrightarrow>
         (\<exists>post. trace st' = trace st1 @ post
            \<and> filter is_save post =
                (if truthy_str (save a) \<and> interval_hits (save_interval a) (i + 1)
                 then [SaveCheckpoint (i + 1)] else [])))
   \<and> (\<forall>iteration skipped st1 st'.
         0 < train_iters a \<and> do_train a
         \<and> train fw a i st = Some (Inr (iteration, skipped), st1)
         \<and> main_training fw a i st = Some (Inr (), st') \<longrightarrow>
         (\<exists>post. trace st' = trace st1 @ post
            \<and> filter is_save post =
                (if truthy_str (save a) \<and> iteration \<noteq> 0 then [SaveCheckpoint iteration] else [])))
   \<and> (\<forall>r st'.
         \<not> (0 < train_iters a \<and> do_train a) \<and> main_training fw a i st = Some (r, st') \<longrightarrow>
         (\<exists>new. trace st' = trace st @ new \<and> filter is_save new = []))"
proof (intro conjI allI impI)
  fix iteration skipped st'
  assume "train fw a i st = Some (Inr (iteration, skipped), st')"
  from train_events[OF this] obtain new where "st' = emits fw new st"
    "filter is_save new = map SaveCheckpoint (filter (save_due a) [i + 1..iteration])" by blast
  then show "\<exists>new. trace st' = trace st @ new
          \<and> filter is_save new =
              map SaveCheckpoint
                (filter (\<lambda>j. truthy_str (save a) \<and> interval_hits (save_interval a) j)
                   [i + 1..iteration])"
    by (intro exI[of _ new]) (simp add: save_due_fun)
next
  fix l ski m' st1 r st'
  assume h: "train_step fw a TrainData mems st = Some (Inr (l, ski, m'), st1)
         \<and> log_interval a \<noteq> 0
         \<and> train_body fw a i tot sk flag mems st = Some (r, st')"
  then have ts: "train_step fw a TrainData mems st = Some (Inr (l, ski, m'), st1)"
    and log: "log_interval a \<noteq> 0"
    and tb: "train_body fw a i tot sk flag mems st = Some (r, st')" by simp_all
  from train_body_after_step[OF ts log tb] obtain post where "st' = emits fw post st1"
    "filter is_save post = (if save_due a (i + 1) then [SaveCheckpoint (i + 1)] else [])" by blast
  then show "\<exists>post. trace st' = trace st1 @ post
            \<and> filter is_save post =
                (if truthy_str (save a) \<and> interval_hits (save_interval a) (i + 1)
                 then [SaveCheckpoint (i + 1)] else [])"
    by (intro exI[of _ post]) (simp add: save_due_def)
next
  fix iteration skipped st1 st'
  assume h: "0 < train_iters a \<and> do_train a
         \<and> train fw a i st = Some (Inr (iteration, skipped), st1)
         \<and> main_training fw a i st = Some (Inr (), st')"
  then have h1: "0 < train_iters a" and h2: "do_train a"
    and h3: "train fw a i st = Some (Inr (iteration, skipped), st1)"
    and h4: "main_training fw a i st = Some (Inr (), st')" by simp_all
  from main_training_after_train[OF h1 h2 h3 h4] obtain post where "st' = emits fw post st1"
    "filter is_save post
       = (if truthy_str (save a) \<and> iteration \<noteq> 0 then [SaveCheckpoint iteration] else [])"
    by blast
  then show "\<exists>post. trace st' = trace st1 @ post
            \<and> filter is_save post =
                (if truthy_str (save a) \<and> iteration \<noteq> 0 then [SaveCheckpoint iteration] else [])"
    by (intro exI[of _ post]) simp
next
  fix r st'
  assume h: "\<not> (0 < train_iters a \<and> do_train a) \<and> main_training fw a i st = Some (r, st')"
  then have h1: "\<not> (0 < train_iters a \<and> do_train a)"
    and h2: "main_training fw a i st = Some (r, st')" by simp_all
  from main_training_without_train[OF h1 h2] obtain new where "st' = emits fw new st"
    "filter is_save new = []" by blast
  then show "\<exists>new. trace st' = trace st @ new \<and> filter is_save new = []"
    by (intro exI[of _ new]) simp
qed

theorem checkpoint_schedule_witness:
  "train example_framework example_args 0 example_state
     = Some (Inr (2, 0), \<lparr>world = 23, trace = example_train_trace\<rparr>)
   \<and> filter is_save example_train_trace = [SaveCheckpoint 2]
   \<and> map SaveCheckpoint
        (filter (\<lambda>j. truthy_str (save example_args) \<and> interval_hits (save_interval example_args) j)
           [0 + 1..2]) = [SaveCheckpoint 2 :: nat event]
   \<and> main_training example_framework example_args 0 example_state
       = Some (Inr (), \<lparr>world = 24, trace = example_train_trace @ [SaveCheckpoint 2]\<rparr>)
   \<and> 0 < train_iters example_args \<and> do_train example_args"
proof -
  note t = checkpoint_schedule[of example_framework example_args 0 example_state "[]" "Some 0" 0 True]
  from t example_train_run
  obtain new where n: "trace \<lparr>world = 23::nat, trace = example_train_trace\<rparr> = trace example_state @ new"
    "filter is_save new =
              map SaveCheckpoint
                (filter (\<lambda>j. truthy_str (save example_args) \<and> interval_hits (save_interval example_args) j)
                   [0 + 1..2])" by blast
  from n(1) have new: "new = example_train_trace" by (simp add: example_state_def)
  have f: "filter is_save example_train_trace = [SaveCheckpoint 2]"
    by (simp add: example_train_trace_def)
  from n(2) have m: "map SaveCheckpoint
        (filter (\<lambda>j. truthy_str (save example_args) \<and> interval_hits (save_interval example_args) j)
           [0 + 1..2]) = [SaveCheckpoint 2 :: nat event]"
    unfolding new f by simp
  have "0 < train_iters example_args" "do_train example_args" by (simp_all add: example_args_def)
  with f m example_train_run example_main_run show ?thesis by blast
qed

text \<open>
  C7, as stated, says that with \<open>args.exit_interval\<close> unset \<open>train\<close> ends with
  \<open>args.iteration\<close> equal to \<open>args.train_iters\<close>. A run resumed from a checkpoint beyond
  \<open>train_iters\<close> does not: with \<open>train_iters = 2\<close> and \<open>args.iteration = 5\<close> the loop is
  not entered and \<open>train\<close> returns iteration 5 after no step.
\<close>

theorem train_resumed_past_train_iters:
  "train example_framework example_args 5 example_state
     = Some (Inr (5, 0), \<lparr>world = 1, trace = [ModelTrain]\<rparr>)
   \<and> train_iters example_args = 2
   \<and> exit_interval example_args = None
   \<and> \<not> deepspeed example_args"
proof -
  have "\<not> (5::int) < train_iters example_args" by (simp add: example_args_def)
  then have "train example_framework example_args 5 example_state
     = Some (Inr (5, 0), emit example_framework ModelTrain example_state)"
    by (simp add: train_def train_loop_done)
  then show ?thesis
    by (simp add: example_args_def) (simp add: emit_def example_framework_def example_state_def)
qed

text \<open>
  C7, amended. Without deepspeed, (a) every call of \<open>train_step\<close> returns after a single
  pass: it fetches one batch and makes at most one model call, and when it does not
  raise it has made exactly one model call (forward pass), one backward pass and one
  optimizer step. (b) Whenever \<open>train\<close> returns, \<open>args.iteration\<close> is the larger of
  its initial value and \<open>args.train_iters\<close>. (c) When moreover \<open>args.exit_interval\<close> is
  unset and nothing raises (no forward step raises, \<open>args.log_interval\<close> is not zero,
  and \<open>args.eval_iters\<close> is not zero if validation is on), \<open>train\<close> does return, after
  exactly \<open>max(0, train_iters - initial iteration)\<close> steps, one per increment of the
  iteration.
\<close>

theorem train_terminates_after_train_iters:
  assumes "\<not> deepspeed a"
  shows "(\<exists>r st' new. train_step fw a it mems st = Some (r, st')
            \<and> trace st' = trace st @ new
            \<and> count_list new (FetchBatch it) = 1
            \<and> length (filter is_model_call new) \<le> 1
            \<and> (\<forall>x. r = Inr x \<longrightarrow>
                  length (filter is_model_call new) = 1
                \<and> length (filter is_backward new) = 1
                \<and> count_list new OptimizerStep = 1))
       \<and> (\<forall>iteration skipped st'. train fw a i st = Some (Inr (iteration, skipped), st')
             \<longrightarrow> iteration = max i (train_iters a))
       \<and> (forward_never_raises fw a \<and> log_interval a \<noteq> 0
           \<and> (exit_interval a = None \<or> exit_interval a = Some 0)
           \<and> (do_valid a \<longrightarrow> eval_iters a \<noteq> 0) \<longrightarrow>
           (\<exists>skipped st' new.
               train fw a i st = Some (Inr (max i (train_iters a), skipped), st')
             \<and> trace st' = trace st @ new
             \<and> count_list new OptimizerStep = nat (train_iters a - i)))"
proof (intro conjI allI impI)
  obtain rf st1 where f: "forward_step fw a it mems st = (rf, st1)"
    by (cases "forward_step fw a it mems st")
  show "\<exists>r st' new. train_step fw a it mems st = Some (r, st')
            \<and> trace st' = trace st @ new
            \<and> count_list new (FetchBatch it) = 1
            \<and> length (filter is_model_call new) \<le> 1
            \<and> (\<forall>x. r = Inr x \<longrightarrow>
                  length (filter is_model_call new) = 1
                \<and> length (filter is_backward new) = 1
                \<and> count_list new OptimizerStep = 1)"
  proof (cases rf)
    case (Inl e)
    with f have ts: "train_step fw a it mems st = Some (Inl e, st1)"
      by (subst train_step_unfold) simp
    from forward_step_Inl_state[OF f[unfolded Inl]] show ?thesis
    proof
      assume "st1 = emits fw [FetchBatch it] st"
      with ts show ?thesis
        by (intro exI[of _ "Inl e"] exI[of _ st1] exI[of _ "[FetchBatch it]"]) simp
    next
      assume "\<exists>m1. st1 = emits fw [FetchBatch it, ModelCall mems m1] st"
      then obtain m1 where "st1 = emits fw [FetchBatch it, ModelCall mems m1] st" ..
      with ts show ?thesis
        by (intro exI[of _ "Inl e"] exI[of _ st1] exI[of _ "[FetchBatch it, ModelCall mems m1]"])
           simp
    qed
  next
    case (Inr p)
    obtain l m1 where p: "p = (l, m1)" by (cases p)
    from train_step_no_deepspeed[OF assms f[unfolded Inr p]] obtain lr sk ovf where
      ts: "train_step fw a it mems st =
           Some (Inr (lr, sk, m1),
                 emits fw ([FetchBatch it, ModelCall mems m1] @ backward_events a l
                           @ [OptimizerStep] @ (if ovf then [] else [LrSchedulerStep])) st)"
      by blast
    let ?new = "[FetchBatch it, ModelCall mems m1] @ backward_events a l
                           @ [OptimizerStep] @ (if ovf then [] else [LrSchedulerStep])"
    have "count_list (backward_events a l) (FetchBatch it) = 0"
      by (simp add: backward_events_def)
    then have "count_list ?new (FetchBatch it) = 1" by simp
    moreover have "length (filter is_model_call ?new) = 1" by simp
    moreover have "length (filter is_backward ?new) = 1" by simp
    moreover have "count_list ?new OptimizerStep = 1" by simp
    ultimately show ?thesis using ts
      by (intro exI[of _ "Inr (lr, sk, m1)"] exI[of _ "emits fw ?new st"] exI[of _ ?new])
         (simp del: append.simps)
  qed
next
  fix iteration skipped st'
  assume "train fw a i st = Some (Inr (iteration, skipped), st')"
  from train_events[OF this] show "iteration = max i (train_iters a)" by blast
next
  assume h: "forward_never_raises fw a \<and> log_interval a \<noteq> 0
           \<and> (exit_interval a = None \<or> exit_interval a = Some 0)
           \<and> (do_valid a \<longrightarrow> eval_iters a \<noteq> 0)"
  then have fnr: "forward_never_raises fw a" and log: "log_interval a \<noteq> 0"
    and ev: "do_valid a \<longrightarrow> eval_iters a \<noteq> 0" by simp_all
  from h have ex: "\<forall>j. \<not> interval_hits (exit_interval a) j"
    by (auto simp: interval_hits_def)
  from train_loop_total[OF assms fnr log ex ev, of i "Some 0" 0 True "[]" "emit fw ModelTrain st"]
  obtain skf new where
    r: "train_loop fw a i (Some 0) 0 True [] (emit fw ModelTrain st)
          = Some (Inr (max i (train_iters a), skf), emits fw new (emit fw ModelTrain st))"
    and c: "count_list new OptimizerStep = nat (train_iters a - i)" by blast
  show "\<exists>skipped st' new.
               train fw a i st = Some (Inr (max i (train_iters a), skipped), st')
             \<and> trace st' = trace st @ new
             \<and> count_list new OptimizerStep = nat (train_iters a - i)"
    using r c
    by (intro exI[of _ skf] exI[of _ "emits fw new (emit fw ModelTrain st)"]
          exI[of _ "ModelTrain # new"]) (simp add: train_def)
qed

theorem train_terminates_after_train_iters_witness:
  "\<not> deepspeed example_args
   \<and> forward_never_raises example_framework example_args
   \<and> log_interval example_args \<noteq> 0 \<and> exit_interval example_args = None
   \<and> \<not> do_valid example_args
   \<and> train example_framework example_args 0 example_state
       = Some (Inr (2, 0), \<lparr>world = 23, trace = example_train_trace\<rparr>)
   \<and> max 0 (train_iters example_args) = 2
   \<and> count_list example_train_trace OptimizerStep = nat (train_iters example_args - 0)"
proof -
  have h: "\<not> deepspeed example_args" by (simp add: example_args_def)
  have g: "log_interval example_args \<noteq> 0" "exit_interval example_args = None"
    "\<not> do_valid example_args" "max 0 (train_iters example_args) = 2"
    by (simp_all add: example_args_def)
  note t = train_terminates_after_train_iters[OF h, of example_framework TrainData "[]"
      example_state 0]
  from t example_forward_never_raises g
  obtain skipped st' new where
    n: "train example_framework example_args 0 example_state
          = Some (Inr (max 0 (train_iters example_args), skipped), st')"
       "trace st' = trace example_state @ new"
       "count_list new OptimizerStep = nat (train_iters example_args - 0)"
    by blast
  from n(1) example_train_run have "st' = \<lparr>world = 23, trace = example_train_trace\<rparr>" by simp
  with n(2) have "new = example_train_trace" by (simp add: example_state_def)
  with n(3) have "count_list example_train_trace OptimizerStep = nat (train_iters example_args - 0)"
    by simp
  with h g example_forward_never_raises example_train_run show ?thesis by blast
qed

section \<open>The loss of a forward step\<close>

text \<open>
  C8. The loss of \<open>forward_step\<close> is \<open>sum(losses * loss_mask) / loss_mask.sum()\<close>, with
  nothing guarding the division. (a) For every batch whose loss mask is a mask (no
  negative entry) with at least one nonzero entry, the denominator is not zero and the
  loss \<open>forward_step\<close> returns is a finite quotient by it. (b) Without
  \<open>transformer_xl\<close>, \<open>get_masks_and_position_ids\<close> returns the loss mask it was given (all
  ones when none was given) with a zero at every EOD position and unchanged elsewhere,
  so a nonzero entry needs a token that is not EOD; (c) with the default mask of ones
  the mask has a nonzero entry exactly when some token is not EOD, and then its sum is
  positive.
\<close>

theorem masked_mean_denominator:
  "(\<forall>tokens labels lm am pos st1.
       get_batch fw a it st = (Inr (tokens, labels, lm, am, pos), st1)
       \<and> (\<forall>x \<in> set (concat lm). 0 \<le> x) \<and> (\<exists>x \<in> set (concat lm). x \<noteq> 0) \<longrightarrow>
       sum_list (concat lm) \<noteq> 0
       \<and> (\<forall>loss mems' st'. forward_step fw a it mems st = (Inr (loss, mems'), st') \<longrightarrow>
             (\<exists>weighted. loss = Some (sum_list weighted / sum_list (concat lm)))))
   \<and> (\<forall>am lm pos.
         get_masks_and_position_ids data eod rp ra lmo amo False ml = Inr (am, lm, pos) \<longrightarrow>
         (\<forall>b < length data. \<forall>j < length (data ! b).
             lm ! b ! j =
               (if data ! b ! j = eod then 0
                else (case lmo of None \<Rightarrow> 1 | Some l \<Rightarrow> l ! b ! j))))
   \<and> (\<forall>am lm pos.
         get_masks_and_position_ids data eod rp ra None amo False ml = Inr (am, lm, pos) \<longrightarrow>
         ((\<exists>x \<in> set (concat lm). x \<noteq> 0) \<longleftrightarrow> (\<exists>t \<in> set (concat data). t \<noteq> eod))
         \<and> ((\<exists>t \<in> set (concat data). t \<noteq> eod) \<longrightarrow> 0 < sum_list (concat lm)))"
proof (intro conjI allI impI)
  fix tokens labels lm am pos st1
  assume h: "get_batch fw a it st = (Inr (tokens, labels, lm, am, pos), st1)
       \<and> (\<forall>x \<in> set (concat lm). 0 \<le> x) \<and> (\<exists>x \<in> set (concat lm). x \<noteq> 0)"
  then have gb: "get_batch fw a it st = (Inr (tokens, labels, lm, am, pos), st1)"
    and nn: "\<forall>x \<in> set (concat lm). 0 \<le> x" and nz: "\<exists>x \<in> set (concat lm). x \<noteq> 0"
    by simp_all
  from sum_list_pos_of_nonneg[OF nn nz] show d: "sum_list (concat lm) \<noteq> 0" by simp
  fix loss mems' st'
  assume "forward_step fw a it mems st = (Inr (loss, mems'), st')"
  from forward_step_loss[OF gb this] d
  show "\<exists>weighted. loss = Some (sum_list weighted / sum_list (concat lm))"
    by (auto simp: tensor_div_def)
next
  fix am lm pos b j
  assume g: "get_masks_and_position_ids data eod rp ra lmo amo False ml = Inr (am, lm, pos)"
    and b: "b < length data" and j: "j < length (data ! b)"
  let ?lm0 = "case lmo of None \<Rightarrow> map (\<lambda>row. replicate (length row) 1) data | Some l \<Rightarrow> l"
  from get_masks_loss_mask[OF g] have sh: "same_shape ?lm0 data"
    and lm: "lm = zero_at_eod eod data ?lm0" by simp_all
  have "?lm0 ! b ! j = (case lmo of None \<Rightarrow> 1 | Some l \<Rightarrow> l ! b ! j)"
    using b j by (cases lmo) simp_all
  with zero_at_eod_nth[OF sh b j, of eod] lm
  show "lm ! b ! j = (if data ! b ! j = eod then 0
                else (case lmo of None \<Rightarrow> 1 | Some l \<Rightarrow> l ! b ! j))" by simp
next
  fix am lm pos
  assume g: "get_masks_and_position_ids data eod rp ra None amo False ml = Inr (am, lm, pos)"
  let ?ones = "map (\<lambda>row. replicate (length row) (1::real)) data"
  from get_masks_loss_mask[OF g] have lm: "lm = zero_at_eod eod data ?ones" by simp
  have rows: "lm = map (map (\<lambda>t. if t = eod then 0 else 1)) data"
    unfolding lm zero_at_eod_def
    by (auto intro!: nth_equalityI simp: zip_replicate2 nth_zip)
  have c: "concat lm = map (\<lambda>t. if t = eod then 0 else 1) (concat data)"
    unfolding rows by (simp add: map_concat)
  have ex: "(\<exists>x \<in> set (map f xs). x \<noteq> 0) \<longleftrightarrow> (\<exists>t \<in> set xs. f t \<noteq> 0)"
    for f :: "int \<Rightarrow> real" and xs
    by (induction xs) auto
  have "(\<exists>x \<in> set (concat lm). x \<noteq> 0)
          \<longleftrightarrow> (\<exists>t \<in> set (concat data). (if t = eod then 0 else (1::real)) \<noteq> 0)"
    unfolding c by (rule ex)
  also have "\<dots> \<longleftrightarrow> (\<exists>t \<in> set (concat data). t \<noteq> eod)"
    by (rule bex_cong) simp_all
  finally show iff: "(\<exists>x \<in> set (concat lm). x \<noteq> 0) \<longleftrightarrow> (\<exists>t \<in> set (concat data). t \<noteq> eod)" .
  assume "\<exists>t \<in> set (concat data). t \<noteq> eod"
  with iff have nz: "\<exists>x \<in> set (concat lm). x \<noteq> 0" by simp
  have nn: "\<forall>x \<in> set (concat lm). 0 \<le> x" unfolding c by auto
  from sum_list_pos_of_nonneg[OF nn nz] show "0 < sum_list (concat lm)" .
qed

theorem masked_mean_denominator_witness:
  "get_batch example_framework example_args TrainData example_state =
     (Inr ([[1, 2]], [[2, 3]], [[1, 1]], [[[[1, 0], [1, 1]]]], [[0, 1]]),
      emit example_framework (FetchBatch TrainData) example_state)
   \<and> sum_list (concat [[1, 1 :: real]]) \<noteq> 0
   \<and> (\<exists>weighted. fst (forward_step example_framework example_args TrainData [] example_state)
         = Inr (Some (sum_list weighted / sum_list (concat [[1, 1]])), [1]))
   \<and> get_masks_and_position_ids [[5, 0, 7]] 0 False False None None False None
       = Inr ([[[[1, 0, 0], [1, 1, 0], [1, 1, 1]]]], [[1, 0, 1]], [[0, 1, 2]])
   \<and> 0 < sum_list (concat [[1, 0, 1 :: real]])"
proof -
  note t = masked_mean_denominator[of example_framework example_args TrainData example_state
      "[]" "[[5, 0, 7]]" 0 False False None None None]
  have m: "\<forall>x \<in> set (concat [[1, 1 :: real]]). 0 \<le> x" "\<exists>x \<in> set (concat [[1, 1 :: real]]). x \<noteq> 0"
    by simp_all
  have f: "forward_step example_framework example_args TrainData [] example_state =
     (Inr (Some 1, [1]),
      emits example_framework [FetchBatch TrainData, ModelCall [] [1]] example_state)"
    by (simp add: example_forward_step) (simp add: example_state_def)
  from t example_get_batch[of TrainData] m f
  have a: "sum_list (concat [[1, 1 :: real]]) \<noteq> 0"
    and b: "\<exists>weighted. Some (1::real) = Some (sum_list weighted / sum_list (concat [[1, 1]]))"
    by blast+
  have g: "get_masks_and_position_ids [[5, 0, 7]] 0 False False None None False None
       = Inr ([[[[1, 0, 0], [1, 1, 0], [1, 1, 1]]]], [[1, 0, 1]], [[0, 1, 2]])"
    by (simp add: get_masks_and_position_ids_def attention_mask_lower_triangular_def
      seq_length_of_def tril_def torch_ones3_def torch_ones2_def unsqueeze1_def
      same_shape_def zero_at_eod_def numeral_eq_Suc upt_rec)
  have e: "\<exists>t \<in> set (concat [[5, 0, 7 :: int]]). t \<noteq> 0" by simp
  from t g e have c: "0 < sum_list (concat [[1, 0, 1 :: real]])" by blast
  from b f have b': "\<exists>weighted. fst (forward_step example_framework example_args TrainData [] example_state)
         = Inr (Some (sum_list weighted / sum_list (concat [[1, 1]])), [1])"
    by auto
  from a b' c g example_get_batch[of TrainData] show ?thesis by blast
qed

section \<open>Sampling\<close>



end
